theory Spec2Isabelle
  imports Main "HOL-Library.Word" "HOL-Library.Multiset"
begin

section \<open>Data model\<close>

subsection \<open>Addresses and paths\<close>

text \<open>
  Go's \<^verbatim>\<open>net.IP\<close> is a byte slice: 4 bytes for an IPv4 address, 16 bytes for an IPv6
  address (or an IPv4 address mapped into IPv6), and \<^verbatim>\<open>nil\<close> (length 0) for "no address".
  \<^verbatim>\<open>IP.Equal\<close> and \<^verbatim>\<open>IP.To4\<close> belong to Go's standard library; they are written out
  here as the library defines them, because \<^verbatim>\<open>SubPath\<close> and the serializer call them.
\<close>

type_synonym byte = "8 word"
type_synonym IP = "byte list"
type_synonym error = string

definition IPv4len :: nat where
  "IPv4len = 4"

definition IPv6len :: nat where
  "IPv6len = 16"

definition v4InV6Prefix :: "byte list" where
  "v4InV6Prefix = [0, 0, 0, 0, 0, 0, 0, 0, 0, 0, 0xff, 0xff]"

definition IP_Equal :: "IP \<Rightarrow> IP \<Rightarrow> bool" where
  "IP_Equal ip x =
     (if length ip = length x then ip = x
      else if length ip = IPv4len \<and> length x = IPv6len
        then take 12 x = v4InV6Prefix \<and> ip = drop 12 x
      else if length ip = IPv6len \<and> length x = IPv4len
        then take 12 ip = v4InV6Prefix \<and> drop 12 ip = x
      else False)"

definition To4 :: "IP \<Rightarrow> IP" where
  "To4 ip =
     (if length ip = IPv4len then ip
      else if length ip = IPv6len \<and> take 12 ip = v4InV6Prefix then drop 12 ip
      else [])"

text \<open>\<^verbatim>\<open>type Path []net.IP\<close>\<close>

type_synonym Path = "IP list"

text \<open>
  The outcome of a call: it returns a value, it panics (Go's run-time check of an index,
  a nil dereference), or it blocks for ever on a channel operation nobody can complete.
\<close>

datatype 'a outcome = Returns 'a | Panics | BlocksForever

subsection \<open>path.go: SubPath\<close>

text \<open>
  \<^verbatim>\<open>
  func (p Path) SubPath(lastHop net.IP) Path {
      for idx, IP := range p {
          if lastHop.Equal(IP) { return p[:idx+1] }
      }
      return []net.IP{}
  }
  \<close>
  The range loop is the recursion on \<open>idx\<close>.
\<close>

function SubPath_loop :: "Path \<Rightarrow> IP \<Rightarrow> nat \<Rightarrow> Path" where
  "SubPath_loop p lastHop idx =
     (if idx < length p
      then (if IP_Equal lastHop (p ! idx) then take (idx + 1) p
            else SubPath_loop p lastHop (idx + 1))
      else [])"
  by pat_completeness auto
termination
  by (relation "measure (\<lambda>(p, lastHop, idx). length p - idx)") auto

declare SubPath_loop.simps [simp del]

definition SubPath :: "Path \<Rightarrow> IP \<Rightarrow> Path" where
  "SubPath p lastHop = SubPath_loop p lastHop 0"

subsection \<open>transport.go: SendToPath\<close>

text \<open>
  \<^verbatim>\<open>
  func (tc *TransportChannel) SendToPath(packetData []byte, path Path) error {
      if len(path) < 1 { return errors.New("path must be non-empty") }
      return tc.SendTo(packetData, path[1])
  }
  \<close>
  \<^verbatim>\<open>SendTo\<close> writes to a raw socket; it is a parameter here, giving the error it returns
  (\<open>None\<close> for nil). Reading \<^verbatim>\<open>path[1]\<close> of a one-element slice is a run-time panic.
\<close>

definition SendToPath ::
  "(byte list \<Rightarrow> IP \<Rightarrow> error option) \<Rightarrow> byte list \<Rightarrow> Path \<Rightarrow> error option outcome" where
  "SendToPath SendTo packetData path =
     (if length path < 1 then Returns (Some ''path must be non-empty'')
      else if 1 < length path then Returns (SendTo packetData (path ! 1))
      else Panics)"

subsection \<open>builder.go: the IPv4 layers\<close>

text \<open>
  The fields of gopacket's \<^verbatim>\<open>layers.IPv4\<close> that the builder sets; the others (TOS, Id,
  FragOffset, Checksum, Options) keep Go's zero value. \<^verbatim>\<open>Length\<close> is a \<^verbatim>\<open>uint16\<close>.
  A serializable layer is an IPv4 header or a raw payload.
\<close>

record IPv4 =
  Version :: byte
  IHL :: byte
  Length :: "16 word"
  Flags :: byte
  TTL :: byte
  Protocol :: byte
  SrcIP :: IP
  DstIP :: IP

datatype SerializableLayer = IPv4Layer IPv4 | PayloadLayer "byte list"

text \<open>gopacket's constants: the Don't-Fragment flag and the IP protocol numbers.\<close>

definition IPv4DontFragment :: byte where
  "IPv4DontFragment = 2"

definition IPProtocolICMPv4 :: byte where
  "IPProtocolICMPv4 = 1"

definition IPProtocolIPv4 :: byte where
  "IPProtocolIPv4 = 4"

definition IPProtocolUDP :: byte where
  "IPProtocolUDP = 17"

text \<open>
  Modelled from the spec: the constants \<^verbatim>\<open>ipHeaderLen\<close> and \<^verbatim>\<open>udpHeaderLen\<close> are declared in
  a file that is not among the sources. The spec's builder scenario computes the outer length
  as \<open>4 \<sqdot> 20 + 20 + 8 + 1\<close>: an IP header counts 20 bytes, a UDP header 8.
\<close>

definition ipHeaderLen :: int where
  "ipHeaderLen = 20"

definition udpHeaderLen :: int where
  "udpHeaderLen = 8"

text \<open>
  \<^verbatim>\<open>buildIPIPLayer\<close> and \<^verbatim>\<open>buildUDPLayer\<close>: an IPv4 header of version 4, IHL 5, DF set,
  TTL 255, with protocol 4 (IP in IP) and 17 (UDP).
\<close>

definition buildIPIPLayer :: "IP \<Rightarrow> IP \<Rightarrow> 16 word \<Rightarrow> IPv4" where
  "buildIPIPLayer sourceIP destIP totalLength =
     \<lparr>Version = 4, IHL = 5, Length = totalLength, Flags = IPv4DontFragment, TTL = 255,
      Protocol = IPProtocolIPv4, SrcIP = sourceIP, DstIP = destIP\<rparr>"

definition buildUDPLayer :: "IP \<Rightarrow> IP \<Rightarrow> 16 word \<Rightarrow> IPv4" where
  "buildUDPLayer sourceIP destIP totalLength =
     \<lparr>Version = 4, IHL = 5, Length = totalLength, Flags = IPv4DontFragment, TTL = 255,
      Protocol = IPProtocolUDP, SrcIP = sourceIP, DstIP = destIP\<rparr>"

subsection \<open>The serializer\<close>

text \<open>
  \<^verbatim>\<open>gopacket.SerializeLayers\<close> is library code. What the builder relies on is written
  out here: the layers are serialized from the last to the first, each prepending its bytes
  to the buffer; an IPv4 layer fails when its source or destination has no 4-byte form
  (\<^verbatim>\<open>AddressTo4\<close>) and otherwise writes a 20-byte header carrying the fields as given
  (\<^verbatim>\<open>FixLengths\<close> is off, so \<^verbatim>\<open>Length\<close> is not recomputed) with the addresses in their
  4-byte form; a payload layer writes its bytes; a nil layer is a nil dereference. The
  buffer's content is kept as the list of the layers written, outermost first, and
  \<open>wire_length\<close> counts its bytes. The texts of the library's errors are abridged.
\<close>

definition SerializeTo :: "SerializableLayer \<Rightarrow> error + SerializableLayer" where
  "SerializeTo l =
     (case l of
        PayloadLayer p \<Rightarrow> Inr (PayloadLayer p)
      | IPv4Layer ip \<Rightarrow>
          if To4 (SrcIP ip) = [] then Inl ''invalid src IP''
          else if To4 (DstIP ip) = [] then Inl ''invalid dst IP''
          else Inr (IPv4Layer (ip\<lparr>SrcIP := To4 (SrcIP ip), DstIP := To4 (DstIP ip)\<rparr>)))"

fun serialize_from_last ::
  "SerializableLayer option list \<Rightarrow> SerializableLayer list \<Rightarrow>
     (error + SerializableLayer list) outcome" where
  "serialize_from_last [] w = Returns (Inr w)"
| "serialize_from_last (None # rest) w = Panics"
| "serialize_from_last (Some l # rest) w =
     (case SerializeTo l of
        Inl e \<Rightarrow> Returns (Inl e)
      | Inr s \<Rightarrow> serialize_from_last rest (s # w))"

definition SerializeLayers ::
  "SerializableLayer option list \<Rightarrow> (error + SerializableLayer list) outcome" where
  "SerializeLayers layers = serialize_from_last (rev layers) []"

definition layer_size :: "SerializableLayer \<Rightarrow> nat" where
  "layer_size l = (case l of IPv4Layer ip \<Rightarrow> 20 | PayloadLayer p \<Rightarrow> length p)"

definition wire_length :: "SerializableLayer list \<Rightarrow> nat" where
  "wire_length w = sum_list (map layer_size w)"

subsection \<open>builder.go: CreateRoundTripPacketForPath\<close>

text \<open>
  \<^verbatim>\<open>
  if len(path) < 2 { return errors.New("Path must have atleast 2 hops") }
  numHops := len(path)
  numLayers := 2 * (numHops - 1)
  lenOverhead := len(payload) + udpHeaderLen + ipHeaderLen
  constructedLayers := make([]gopacket.SerializableLayer, numLayers)
  for idx := range path[:len(path)-1] {
      hopA := path[idx]
      hopB := path[idx+1]
      depLen := uint16(ipHeaderLen * (numLayers - idx) + lenOverhead)
      arrLen := uint16(ipHeaderLen * (idx + 1) + lenOverhead)
      constructedLayers[idx] = buildIPIPLayer(hopA, hopB, depLen)
      constructedLayers[numLayers - idx - 1] = buildIPIPLayer(hopB, hopA, arrLen)
  }
  constructedLayers = append(constructedLayers, buildUDPLayer(path[1], path[0],
      uint16(ipHeaderLen + udpHeaderLen + len(payload))))
  constructedLayers = append(constructedLayers, gopacket.Payload(payload))
  err := gopacket.SerializeLayers(buf, opts, constructedLayers...)
  \<close>
  Go's \<^verbatim>\<open>int\<close> is \<open>int\<close> here, the conversion to \<^verbatim>\<open>uint16\<close> is \<open>word_of_int\<close> (it
  wraps), the slice made by \<^verbatim>\<open>make\<close> holds nil (\<open>None\<close>) until written, and a write
  outside the slice is a panic (\<open>store\<close> gives \<open>None\<close>). The UDP layer of the source is
  commented out: what follows the IP-in-IP headers is one IPv4 header of protocol UDP and
  the payload. The serialize buffer is returned in the result.
\<close>

definition store :: "'a list \<Rightarrow> int \<Rightarrow> 'a \<Rightarrow> 'a list option" where
  "store xs i v = (if 0 \<le> i \<and> i < int (length xs) then Some (xs[nat i := v]) else None)"

definition round_trip_step ::
  "Path \<Rightarrow> int \<Rightarrow> int \<Rightarrow> nat \<Rightarrow> SerializableLayer option list \<Rightarrow>
     SerializableLayer option list option" where
  "round_trip_step path numLayers lenOverhead idx constructedLayers =
     (let hopA = path ! idx;
          hopB = path ! (idx + 1);
          depLen = (word_of_int (ipHeaderLen * (numLayers - int idx) + lenOverhead) :: 16 word);
          arrLen = (word_of_int (ipHeaderLen * (int idx + 1) + lenOverhead) :: 16 word)
      in case store constructedLayers (int idx)
                (Some (IPv4Layer (buildIPIPLayer hopA hopB depLen))) of
           None \<Rightarrow> None
         | Some ls \<Rightarrow>
             store ls (numLayers - int idx - 1)
               (Some (IPv4Layer (buildIPIPLayer hopB hopA arrLen))))"

fun round_trip_loop ::
  "Path \<Rightarrow> int \<Rightarrow> int \<Rightarrow> nat list \<Rightarrow> SerializableLayer option list \<Rightarrow>
     SerializableLayer option list option" where
  "round_trip_loop path numLayers lenOverhead [] constructedLayers = Some constructedLayers"
| "round_trip_loop path numLayers lenOverhead (idx # rest) constructedLayers =
     (case round_trip_step path numLayers lenOverhead idx constructedLayers of
        None \<Rightarrow> None
      | Some ls \<Rightarrow> round_trip_loop path numLayers lenOverhead rest ls)"

definition CreateRoundTripPacketForPath ::
  "Path \<Rightarrow> byte list \<Rightarrow> (error + SerializableLayer list) outcome" where
  "CreateRoundTripPacketForPath path payload =
     (if length path < 2 then Returns (Inl ''Path must have atleast 2 hops'')
      else
        let numHops = int (length path);
            numLayers = 2 * (numHops - 1);
            lenOverhead = int (length payload) + udpHeaderLen + ipHeaderLen
        in case round_trip_loop path numLayers lenOverhead [0..<length path - 1]
                  (replicate (nat numLayers) None) of
             None \<Rightarrow> Panics
           | Some constructedLayers \<Rightarrow>
               SerializeLayers
                 (constructedLayers @
                  [Some (IPv4Layer (buildUDPLayer (path ! 1) (path ! 0)
                      (word_of_int (ipHeaderLen + udpHeaderLen + int (length payload))))),
                   Some (PayloadLayer payload)]))"


text \<open>
  Names for the statements below: the layer the loop writes at \<open>idx\<close> and at
  \<open>numLayers - idx - 1\<close>, a layer as it stands in the buffer, a layer the serializer
  accepts, and an IP-in-IP header.
\<close>

definition outgoing :: "Path \<Rightarrow> int \<Rightarrow> int \<Rightarrow> nat \<Rightarrow> SerializableLayer" where
  "outgoing P numLayers ov i =
     IPv4Layer (buildIPIPLayer (P ! i) (P ! (i + 1))
       (word_of_int (ipHeaderLen * (numLayers - int i) + ov)))"

definition returning :: "Path \<Rightarrow> int \<Rightarrow> nat \<Rightarrow> SerializableLayer" where
  "returning P ov i =
     IPv4Layer (buildIPIPLayer (P ! (i + 1)) (P ! i)
       (word_of_int (ipHeaderLen * (int i + 1) + ov)))"

definition on_wire :: "SerializableLayer \<Rightarrow> SerializableLayer" where
  "on_wire l =
     (case l of
        PayloadLayer p \<Rightarrow> PayloadLayer p
      | IPv4Layer ip \<Rightarrow> IPv4Layer (ip\<lparr>SrcIP := To4 (SrcIP ip), DstIP := To4 (DstIP ip)\<rparr>))"

definition serializable :: "SerializableLayer \<Rightarrow> bool" where
  "serializable l =
     (case l of
        PayloadLayer p \<Rightarrow> True
      | IPv4Layer ip \<Rightarrow> To4 (SrcIP ip) \<noteq> [] \<and> To4 (DstIP ip) \<noteq> [])"

definition isIPIP :: "SerializableLayer \<Rightarrow> bool" where
  "isIPIP l = (case l of IPv4Layer ip \<Rightarrow> Protocol ip = IPProtocolIPv4 | PayloadLayer p \<Rightarrow> False)"

subsection \<open>Channels\<close>

text \<open>
  A Go channel, as one goroutine sees it at the moment of an operation: the values
  buffered, the capacity, whether it is closed, how many goroutines are blocked receiving
  from it, and the values that were handed directly to such blocked readers (a record of
  what they received). A send panics on a closed channel; it hands the value to a blocked
  reader when there is one, releasing that reader; otherwise it stores the value when the
  buffer has room, and blocks when it has none. A receive takes the oldest buffered value.
  \<^verbatim>\<open>make(chan T, n)\<close> gives an open, empty channel that no other goroutine knows yet.
\<close>

record 'a channel =
  buf :: "'a list"
  cap :: nat
  closed :: bool
  receivers :: nat
  handed :: "'a list"

datatype 'a sent = Sent "'a channel" | WouldBlock | SendPanics

definition make_chan :: "nat \<Rightarrow> 'a channel" where
  "make_chan n = \<lparr>buf = [], cap = n, closed = False, receivers = 0, handed = []\<rparr>"

definition chan_send :: "'a channel \<Rightarrow> 'a \<Rightarrow> 'a sent" where
  "chan_send c v =
     (if closed c then SendPanics
      else if 0 < receivers c
        then Sent (c\<lparr>receivers := receivers c - 1, handed := handed c @ [v]\<rparr>)
      else if length (buf c) < cap c then Sent (c\<lparr>buf := buf c @ [v]\<rparr>)
      else WouldBlock)"

definition chan_recv :: "'a channel \<Rightarrow> ('a \<times> 'a channel) option" where
  "chan_recv c = (case buf c of [] \<Rightarrow> None | v # vs \<Rightarrow> Some (v, c\<lparr>buf := vs\<rparr>))"

definition chan_close :: "'a channel \<Rightarrow> 'a channel" where
  "chan_close c = c\<lparr>closed := True\<rparr>"

subsection \<open>Captured packets\<close>

text \<open>
  What the code reads of a captured \<^verbatim>\<open>gopacket.Packet\<close>: the addresses of its IPv4
  layer, the payload of its UDP layer and the payload of its application layer, each
  absent (\<open>None\<close>) when the packet has no such layer.
\<close>

record Packet =
  ip4 :: "(IP \<times> IP) option"
  udp :: "byte list option"
  app :: "byte list option"

subsection \<open>hash.go\<close>

text \<open>
  A hash is a Go string, that is a sequence of bytes. \<^verbatim>\<open>BoomerangPacketHasher\<close> takes the
  first 20 bytes of the application payload.
\<close>

type_synonym hash = "byte list"
type_synonym PacketHasher = "Packet \<Rightarrow> error + hash"

definition BoomerangPacketHasher :: PacketHasher where
  "BoomerangPacketHasher p =
     (case app p of
        None \<Rightarrow>
          Inl ''packet didn't have an application layer or payload was less than 20 bytes''
      | Some payload \<Rightarrow>
          if length payload < 20
          then Inl ''packet didn't have an application layer or payload was less than 20 bytes''
          else Inr (take 20 payload))"

text \<open>
  \<^verbatim>\<open>
  type packetHashMap struct {
      sync.Mutex
      m       map[string]chan gopacket.Packet
      hashers []PacketHasher
  }
  \<close>
  The mutex is the flag \<open>phm_locked\<close>: \<^verbatim>\<open>Lock\<close> on a locked mutex waits.
\<close>

record packetHashMap =
  phm_locked :: bool
  phm_m :: "hash \<rightharpoonup> Packet channel"
  phm_hashers :: "PacketHasher list"

definition NewPacketHashMap :: packetHashMap where
  "NewPacketHashMap = \<lparr>phm_locked = False, phm_m = Map.empty, phm_hashers = []\<rparr>"

definition AttachHasher :: "packetHashMap \<Rightarrow> PacketHasher \<Rightarrow> packetHashMap" where
  "AttachHasher phm hasher = phm\<lparr>phm_hashers := phm_hashers phm @ [hasher]\<rparr>"

text \<open>
  \<^verbatim>\<open>
  func (phm *packetHashMap) run(p gopacket.Packet) {
      computedHashSlice := []string{}
      for _, hasher := range phm.hashers {
          computedHash, err := hasher(p)
          if err != nil { continue }
          computedHashSlice = append(computedHashSlice, computedHash)
      }
      phm.Lock()
      defer phm.Unlock()
      for _, computedHash := range computedHashSlice {
          if packetMatchChannel, ok := phm.m[computedHash]; ok {
              packetMatchChannel <- p
          }
      }
  }
  \<close>
  The send is a plain channel send. One call of \<open>run\<close> waits for the mutex
  (\<open>WaitsForLock\<close>), or takes it and goes through the whole slice (\<open>Dispatched\<close>, the mutex
  released by the deferred \<^verbatim>\<open>Unlock\<close>), or stops at a send that cannot proceed
  (\<open>BlockedAt\<close>: the hashes still to serve, the blocked one first, and the table with the
  mutex still held), or sends on a closed channel (a panic, the deferred \<^verbatim>\<open>Unlock\<close> run).
  A blocked call goes on, when its send can proceed, as \<open>deliver\<close> on the hashes still to
  serve.
\<close>

fun computeHashes :: "PacketHasher list \<Rightarrow> Packet \<Rightarrow> hash list" where
  "computeHashes [] p = []"
| "computeHashes (hasher # rest) p =
     (case hasher p of
        Inl err \<Rightarrow> computeHashes rest p
      | Inr computedHash \<Rightarrow> computedHash # computeHashes rest p)"

datatype dispatch =
  Dispatched packetHashMap
| BlockedAt "hash list" packetHashMap
| WaitsForLock
| SendOnClosed packetHashMap

fun deliver :: "packetHashMap \<Rightarrow> Packet \<Rightarrow> hash list \<Rightarrow> dispatch" where
  "deliver phm p [] = Dispatched (phm\<lparr>phm_locked := False\<rparr>)"
| "deliver phm p (computedHash # rest) =
     (case phm_m phm computedHash of
        None \<Rightarrow> deliver phm p rest
      | Some packetMatchChannel \<Rightarrow>
          (case chan_send packetMatchChannel p of
             Sent c \<Rightarrow> deliver (phm\<lparr>phm_m := (phm_m phm)(computedHash \<mapsto> c)\<rparr>) p rest
           | WouldBlock \<Rightarrow> BlockedAt (computedHash # rest) phm
           | SendPanics \<Rightarrow> SendOnClosed (phm\<lparr>phm_locked := False\<rparr>)))"

definition run :: "packetHashMap \<Rightarrow> Packet \<Rightarrow> dispatch" where
  "run phm p =
     (let computedHashSlice = computeHashes (phm_hashers phm) p
      in if phm_locked phm then WaitsForLock
         else deliver (phm\<lparr>phm_locked := True\<rparr>) p computedHashSlice)"

text \<open>
  \<^verbatim>\<open>store\<close> makes a queue of capacity 1 for the hash and returns it; \<^verbatim>\<open>del\<close> closes and
  removes the queue of a hash that is present (the closed queue, which its reader still
  holds, is returned beside the \<^verbatim>\<open>bool\<close> of the source). Both take the mutex first: on a
  locked table they wait (\<open>None\<close>).
\<close>

definition store_hash ::
  "packetHashMap \<Rightarrow> hash \<Rightarrow> (packetHashMap \<times> Packet channel) option" where
  "store_hash phm h =
     (if phm_locked phm then None
      else
        let packetMatchChannel = make_chan 1
        in Some (phm\<lparr>phm_m := (phm_m phm)(h \<mapsto> packetMatchChannel)\<rparr>, packetMatchChannel))"

definition del_hash ::
  "packetHashMap \<Rightarrow> hash \<Rightarrow> (packetHashMap \<times> bool \<times> Packet channel option) option" where
  "del_hash phm h =
     (if phm_locked phm then None
      else
        case phm_m phm h of
          None \<Rightarrow> Some (phm, False, None)
        | Some packetMatchChannel \<Rightarrow>
            Some (phm\<lparr>phm_m := (phm_m phm)(h := None)\<rparr>, True,
                  Some (chan_close packetMatchChannel)))"

text \<open>
  Names for the statements on dispatch: a queue that takes a packet now (open, with a
  blocked reader or with room), and the queue after it took the packet.
\<close>

definition takes :: "'a channel \<Rightarrow> bool" where
  "takes c = (\<not> closed c \<and> (0 < receivers c \<or> length (buf c) < cap c))"

definition took :: "'a \<Rightarrow> 'a channel \<Rightarrow> 'a channel" where
  "took v c =
     (if 0 < receivers c then c\<lparr>receivers := receivers c - 1, handed := handed c @ [v]\<rparr>
      else c\<lparr>buf := buf c @ [v]\<rparr>)"

subsection \<open>traffic.go: results\<close>

text \<open>
  \<^verbatim>\<open>time.Time\<close> is an instant (an integer here, 0 for Go's zero value). A struct literal
  that leaves a field out gives it Go's zero value, so the structs are written as updates
  of \<open>zeroPayload\<close> and \<open>zeroResult\<close>.
  \<^verbatim>\<open>
  type BoomerangErrorType int
  const (
      timedOut  BoomerangErrorType = iota
      fatal     BoomerangErrorType = iota
      sendError BoomerangErrorType = iota
  )
  \<close>
\<close>

type_synonym timestamp = int
type_synonym BoomerangErrorType = int

record BoomerangPayload =
  DestIP :: IP
  ID :: string
  TxTimestamp :: timestamp
  RxTimestamp :: timestamp

definition timedOut :: BoomerangErrorType where
  "timedOut = 0"

definition fatal :: BoomerangErrorType where
  "fatal = 1"

definition sendError :: BoomerangErrorType where
  "sendError = 2"

record BoomerangResult =
  Err :: "error option"
  ErrorType :: BoomerangErrorType
  Payload :: BoomerangPayload

definition zeroPayload :: BoomerangPayload where
  "zeroPayload = \<lparr>DestIP = [], ID = [], TxTimestamp = 0, RxTimestamp = 0\<rparr>"

definition zeroResult :: BoomerangResult where
  "zeroResult = \<lparr>Err = None, ErrorType = 0, Payload = zeroPayload\<rparr>"

definition NewBoomerangPayload :: "IP \<Rightarrow> string \<Rightarrow> BoomerangPayload" where
  "NewBoomerangPayload destIP uuid = zeroPayload\<lparr>DestIP := destIP, ID := uuid\<rparr>"

definition IsFatal :: "BoomerangResult \<Rightarrow> bool" where
  "IsFatal b = (ErrorType b = fatal)"

text \<open>
  What arrives on a result or hop channel, and how the channel ends: closed by its
  writer, never closed because the writer blocks for ever, or cut by a panic of the writer.
\<close>

datatype ending = Closed | NeverClosed | Crashed

record 'a stream =
  emitted :: "'a list"
  ending :: ending

subsection \<open>The listener table\<close>

text \<open>
  Modelled from the spec: \<^verbatim>\<open>NewListener\<close>, \<^verbatim>\<open>RegisterListener\<close> and \<^verbatim>\<open>UnregisterListener\<close>
  are called by \<^verbatim>\<open>Boomerang\<close>, and their file is not among the sources. The spec (4.C): a
  listener is a predicate with a delivery queue; \<^emph>\<open>register\<close> "allocates a capacity-1 queue,
  inserts the entry"; \<^emph>\<open>unregister\<close> "removes and closes the queue; idempotent-safe via
  presence check"; predicates are evaluated in insertion order. A listener is identified by
  the handle \<^verbatim>\<open>NewListener\<close> allocates; the queues are kept by handle, also after removal,
  since the probe that registered a listener still holds its queue.
\<close>

record Listener =
  handle :: nat
  predicate :: "Packet \<Rightarrow> BoomerangPayload \<Rightarrow> bool outcome"

record ListenerMap =
  registered :: "Listener list"
  queues :: "nat \<rightharpoonup> Packet channel"
  allocated :: nat

definition NewListenerMap :: ListenerMap where
  "NewListenerMap = \<lparr>registered = [], queues = Map.empty, allocated = 0\<rparr>"

definition NewListener ::
  "ListenerMap \<Rightarrow> (Packet \<Rightarrow> BoomerangPayload \<Rightarrow> bool outcome) \<Rightarrow> Listener \<times> ListenerMap" where
  "NewListener lm criteria =
     (\<lparr>handle = allocated lm, predicate = criteria\<rparr>, lm\<lparr>allocated := allocated lm + 1\<rparr>)"

definition RegisterListener :: "ListenerMap \<Rightarrow> Listener \<Rightarrow> ListenerMap \<times> Packet channel" where
  "RegisterListener lm l =
     (lm\<lparr>registered := registered lm @ [l], queues := (queues lm)(handle l \<mapsto> make_chan 1)\<rparr>,
      make_chan 1)"

definition UnregisterListener :: "ListenerMap \<Rightarrow> Listener \<Rightarrow> ListenerMap \<times> bool" where
  "UnregisterListener lm l =
     (if handle l \<in> set (map handle (registered lm))
      then (lm\<lparr>registered := filter (\<lambda>x. handle x \<noteq> handle l) (registered lm),
               queues := (queues lm)(handle l := map_option chan_close (queues lm (handle l)))\<rparr>,
            True)
      else (lm, False))"

definition is_registered :: "ListenerMap \<Rightarrow> nat \<Rightarrow> bool" where
  "is_registered lm h = (h \<in> set (map handle (registered lm)))"

definition queue_closed :: "ListenerMap \<Rightarrow> nat \<Rightarrow> bool" where
  "queue_closed lm h = (case queues lm h of None \<Rightarrow> False | Some q \<Rightarrow> closed q)"

subsection \<open>The transport channel\<close>

text \<open>
  The fields of \<^verbatim>\<open>TransportChannel\<close> that the probes read and write: the BPF filter
  string and the listener table. \<^verbatim>\<open>strings.Contains\<close> is Go's substring test.
\<close>

record TransportChannel =
  tc_filter :: string
  listenerMap :: ListenerMap

fun HasPrefix :: "string \<Rightarrow> string \<Rightarrow> bool" where
  "HasPrefix s [] = True"
| "HasPrefix [] (c # cs) = False"
| "HasPrefix (x # xs) (c # cs) = (x = c \<and> HasPrefix xs cs)"

fun Contains :: "string \<Rightarrow> string \<Rightarrow> bool" where
  "Contains [] substr = (substr = [])"
| "Contains (x # xs) substr = (HasPrefix (x # xs) substr \<or> Contains xs substr)"

subsection \<open>traffic.go: Boomerang\<close>

text \<open>
  What one run of \<^verbatim>\<open>Boomerang\<close> takes from outside: the UUID drawn, the JSON codec, the
  bytes of the serialize buffer, the raw-socket send, the clock at transmission, the text of
  an address, and which case of the final \<^verbatim>\<open>select\<close> fires: a packet that the listener
  matched, decoded and stamped by the receiving goroutine at the given instant, or the timer,
  read at the given instant.
\<close>

datatype arrival = Matched Packet timestamp | TimerFired timestamp

record BoomerangEnv =
  uuid_New :: string
  json_Marshal :: "BoomerangPayload \<Rightarrow> error + byte list"
  json_Unmarshal :: "byte list \<Rightarrow> BoomerangPayload"
  buf_Bytes :: "SerializableLayer list \<Rightarrow> byte list"
  tc_SendTo :: "byte list \<Rightarrow> IP \<Rightarrow> error option"
  time_Now_tx :: timestamp
  IP_String :: "IP \<Rightarrow> string"
  select_case :: arrival

text \<open>
  The predicate \<^verbatim>\<open>Boomerang\<close> registers: destination \<^verbatim>\<open>path[0]\<close>, source \<^verbatim>\<open>path[1]\<close> and
  the probe's own id in the decoded payload. A packet without IPv4 layer is a nil
  dereference.
\<close>

definition criteria :: "Path \<Rightarrow> string \<Rightarrow> Packet \<Rightarrow> BoomerangPayload \<Rightarrow> bool outcome" where
  "criteria path uuid packet payload =
     (case ip4 packet of
        None \<Rightarrow> Panics
      | Some (srcIP, dstIP) \<Rightarrow>
          Returns (IP_Equal dstIP (path ! 0) \<and> IP_Equal srcIP (path ! 1) \<and> ID payload = uuid))"

text \<open>
  \<^verbatim>\<open>Boomerang\<close>, in the order of the source: the last hop and the payload; the packet
  (a failure is a \<^verbatim>\<open>fatal\<close> result, before any listener exists); the listener and its
  registration; the send (a failure is a \<^verbatim>\<open>sendError\<close> result); then the \<^verbatim>\<open>select\<close>.
  \<^verbatim>\<open>
  select {
  case result := <-seen:
      result.Payload.TxTimestamp = txTime
      resultChan <- result
  case <-timer.C:
      tc.UnregisterListener(listener)
      resultChan <- BoomerangResult{Payload: BoomerangPayload{DestIP: path[len(path)-1],
          TxTimestamp: txTime, RxTimestamp: time.Now().UTC()},
          Err: errors.New("timed out waiting for packet from " + ...), ErrorType: timedOut}
  }
  \<close>
  where the receiving goroutine built \<^verbatim>\<open>seen\<close>'s value as
  \<^verbatim>\<open>BoomerangResult{Payload: *unmarshalledPayload}\<close> from the UDP payload of the packet
  (a packet without UDP layer is a nil dereference). The call returns the result and leaves
  the transport channel with its listener table as the run changed it.
\<close>

definition Boomerang ::
  "TransportChannel \<Rightarrow> BoomerangEnv \<Rightarrow> Path \<Rightarrow> int \<Rightarrow>
     (BoomerangResult \<times> TransportChannel) outcome" where
  "Boomerang tc env path timeout =
     (if length path < 1 then Panics
      else
        let destHop = path ! (length path - 1);
            uuid = uuid_New env
        in case json_Marshal env (NewBoomerangPayload destHop uuid) of
             Inl err \<Rightarrow> Returns (zeroResult\<lparr>Err := Some err, ErrorType := fatal\<rparr>, tc)
           | Inr payload \<Rightarrow>
               (case CreateRoundTripPacketForPath path payload of
                  Panics \<Rightarrow> Panics
                | BlocksForever \<Rightarrow> BlocksForever
                | Returns (Inl err) \<Rightarrow>
                    Returns (zeroResult\<lparr>Err := Some err, ErrorType := fatal\<rparr>, tc)
                | Returns (Inr serialized) \<Rightarrow>
                    let (listener, lm1) = NewListener (listenerMap tc) (criteria path uuid);
                        (lm2, packetMatchChan) = RegisterListener lm1 listener;
                        txTime = time_Now_tx env
                    in case SendToPath (tc_SendTo env) (buf_Bytes env serialized) path of
                         Panics \<Rightarrow> Panics
                       | BlocksForever \<Rightarrow> BlocksForever
                       | Returns (Some err) \<Rightarrow>
                           Returns
                             (zeroResult
                                \<lparr>Err := Some err, ErrorType := sendError,
                                 Payload := zeroPayload\<lparr>DestIP := path ! (length path - 1)\<rparr>\<rparr>,
                              tc\<lparr>listenerMap := lm2\<rparr>)
                       | Returns None \<Rightarrow>
                           (case select_case env of
                              Matched packet rxTime \<Rightarrow>
                                (case udp packet of
                                   None \<Rightarrow> Panics
                                 | Some udpPayload \<Rightarrow>
                                     Returns
                                       (zeroResult
                                          \<lparr>Payload :=
                                             (json_Unmarshal env udpPayload)
                                               \<lparr>RxTimestamp := rxTime, TxTimestamp := txTime\<rparr>\<rparr>,
                                        tc\<lparr>listenerMap := lm2\<rparr>))
                            | TimerFired now \<Rightarrow>
                                let (lm3, existed) = UnregisterListener lm2 listener
                                in Returns
                                     (zeroResult
                                        \<lparr>Payload :=
                                           zeroPayload
                                             \<lparr>DestIP := path ! (length path - 1),
                                              TxTimestamp := txTime, RxTimestamp := now\<rparr>,
                                         Err := Some (''timed out waiting for packet from '' @
                                                  IP_String env (path ! (length path - 1))),
                                         ErrorType := timedOut\<rparr>,
                                      tc\<lparr>listenerMap := lm3\<rparr>))))"

text \<open>The value a call returned, if it returned.\<close>

definition returned :: "'a outcome \<Rightarrow> 'a option" where
  "returned r = (case r of Returns x \<Rightarrow> Some x | Panics \<Rightarrow> None | BlocksForever \<Rightarrow> None)"

subsection \<open>traffic.go: Probe and the sweeps over the prefixes\<close>

text \<open>
  \<^verbatim>\<open>Probe\<close> runs \<^verbatim>\<open>Boomerang\<close> \<open>numPackets\<close> times in a goroutine of its own and sends each
  result on the channel it returned, which it closes at the end. The model gives what that
  channel carries; \<open>envs i\<close> is the outside world of the \<open>i\<close>-th run.
\<close>

fun probe_loop ::
  "TransportChannel \<Rightarrow> (int \<Rightarrow> BoomerangEnv) \<Rightarrow> Path \<Rightarrow> int \<Rightarrow> int list \<Rightarrow>
     BoomerangResult list \<Rightarrow> BoomerangResult stream \<times> TransportChannel" where
  "probe_loop tc envs path timeout [] out = (\<lparr>emitted = out, ending = Closed\<rparr>, tc)"
| "probe_loop tc envs path timeout (i # rest) out =
     (case Boomerang tc (envs i) path timeout of
        Returns (result, tc') \<Rightarrow> probe_loop tc' envs path timeout rest (out @ [result])
      | Panics \<Rightarrow> (\<lparr>emitted = out, ending = Crashed\<rparr>, tc)
      | BlocksForever \<Rightarrow> (\<lparr>emitted = out, ending = NeverClosed\<rparr>, tc))"

definition Probe ::
  "TransportChannel \<Rightarrow> (int \<Rightarrow> BoomerangEnv) \<Rightarrow> Path \<Rightarrow> int \<Rightarrow> int \<Rightarrow>
     BoomerangResult stream \<times> TransportChannel" where
  "Probe tc envs path numPackets timeout = probe_loop tc envs path timeout [1..numPackets] []"

text \<open>
  \<^verbatim>\<open>
  if !strings.Contains(tc.filter, "ip proto 4") {
      resultChan := make(chan BoomerangResult)
      errMsg := fmt.Sprintf("The supplied TransportChannel must ... was: %s", tc.filter)
      resultChan <- BoomerangResult{Err: fmt.Errorf(errMsg), ErrorType: fatal}
      return resultChan
  }
  \<close>
  Both sweeps start with this guard. The channel is unbuffered and, until it is returned,
  known to this goroutine only.
\<close>

definition filter_guard :: "TransportChannel \<Rightarrow> BoomerangResult stream outcome" where
  "filter_guard tc =
     (let resultChan = make_chan 0;
          errMsg = ''The supplied TransportChannel must have a BPFFilter containing ip proto 4. The supplied filter was: '' @ tc_filter tc
      in case chan_send resultChan (zeroResult\<lparr>Err := Some errMsg, ErrorType := fatal\<rparr>) of
           Sent c \<Rightarrow> Returns \<lparr>emitted = buf c, ending = NeverClosed\<rparr>
         | WouldBlock \<Rightarrow> BlocksForever
         | SendPanics \<Rightarrow> Panics)"

text \<open>
  \<^verbatim>\<open>ProbeEachHopOfPath\<close> then starts one \<^verbatim>\<open>Probe\<close> for each prefix \<^verbatim>\<open>path[0:i]\<close>,
  \<open>i = 2, \<dots>, len(path)\<close>, and returns the merge of their channels (\<^verbatim>\<open>merge\<close> is not among
  the sources: the result here is the list of the streams it merges, each \<^verbatim>\<open>Probe\<close> run
  against the transport channel as the call found it). \<^verbatim>\<open>make\<close> with the negative length
  \<^verbatim>\<open>len(path)-1\<close> of an empty path panics.
\<close>

definition ProbeEachHopOfPath ::
  "TransportChannel \<Rightarrow> (nat \<Rightarrow> int \<Rightarrow> BoomerangEnv) \<Rightarrow> Path \<Rightarrow> int \<Rightarrow> int \<Rightarrow>
     BoomerangResult stream list outcome" where
  "ProbeEachHopOfPath tc envs path numPackets timeout =
     (if \<not> Contains (tc_filter tc) ''ip proto 4''
      then (case filter_guard tc of
              Returns s \<Rightarrow> Returns [s]
            | Panics \<Rightarrow> Panics
            | BlocksForever \<Rightarrow> BlocksForever)
      else if length path < 1 then Panics
      else Returns
             (map (\<lambda>i. fst (Probe tc (envs i) (take i path) numPackets timeout))
                [2..<length path + 1]))"

text \<open>
  \<^verbatim>\<open>
  go func() {
      defer close(resultChan)
      for packetCount := 1; packetCount <= numPackets; packetCount++ {
          var wg sync.WaitGroup
          wg.Add(len(path) - 1)
          for i := 2; i <= len(path); i++ {
              go func(idx int) {
                  resultChan <- tc.Boomerang(path[0:idx], timeout)
                  wg.Done()
              }(i)
          }
          wg.Wait()
          time.Sleep(time.Duration(timeout) * time.Second)
      }
  }()
  return resultChan
  \<close>
  The goroutines of one round run concurrently: \<open>sched packetCount\<close> gives the order in
  which they deliver, a rearrangement of the indices \<open>2, \<dots>, len(path)\<close>. A round ends when
  all have delivered (\<^verbatim>\<open>wg.Wait\<close>); \<^verbatim>\<open>wg.Add\<close> of a negative number panics. The stream
  is what the returned channel carries to a reader that keeps receiving.
\<close>

fun sync_round ::
  "TransportChannel \<Rightarrow> (nat \<Rightarrow> BoomerangEnv) \<Rightarrow> Path \<Rightarrow> int \<Rightarrow> nat list \<Rightarrow>
     BoomerangResult list \<Rightarrow> BoomerangResult list \<times> TransportChannel outcome" where
  "sync_round tc envs path timeout [] out = (out, Returns tc)"
| "sync_round tc envs path timeout (idx # rest) out =
     (case Boomerang tc (envs idx) (take idx path) timeout of
        Returns (result, tc') \<Rightarrow> sync_round tc' envs path timeout rest (out @ [result])
      | Panics \<Rightarrow> (out, Panics)
      | BlocksForever \<Rightarrow> (out, BlocksForever))"

fun sync_rounds ::
  "TransportChannel \<Rightarrow> (int \<Rightarrow> nat list \<Rightarrow> nat list) \<Rightarrow> (int \<Rightarrow> nat \<Rightarrow> BoomerangEnv) \<Rightarrow>
     Path \<Rightarrow> int \<Rightarrow> int list \<Rightarrow> BoomerangResult list \<Rightarrow> BoomerangResult stream" where
  "sync_rounds tc sched envs path timeout [] out = \<lparr>emitted = out, ending = Closed\<rparr>"
| "sync_rounds tc sched envs path timeout (packetCount # rest) out =
     (if length path < 1 then \<lparr>emitted = out, ending = Crashed\<rparr>
      else
        case sync_round tc (envs packetCount) path timeout
               (sched packetCount [2..<length path + 1]) out of
          (out', Returns tc') \<Rightarrow> sync_rounds tc' sched envs path timeout rest out'
        | (out', Panics) \<Rightarrow> \<lparr>emitted = out', ending = Crashed\<rparr>
        | (out', BlocksForever) \<Rightarrow> \<lparr>emitted = out', ending = NeverClosed\<rparr>)"

definition ProbeEachHopOfPathSync ::
  "TransportChannel \<Rightarrow> (int \<Rightarrow> nat list \<Rightarrow> nat list) \<Rightarrow> (int \<Rightarrow> nat \<Rightarrow> BoomerangEnv) \<Rightarrow>
     Path \<Rightarrow> int \<Rightarrow> int \<Rightarrow> BoomerangResult stream outcome" where
  "ProbeEachHopOfPathSync tc sched envs path numPackets timeout =
     (if \<not> Contains (tc_filter tc) ''ip proto 4'' then filter_guard tc
      else Returns (sync_rounds tc sched envs path timeout [1..numPackets] []))"

subsection \<open>A scenario for the probes\<close>

text \<open>
  The concrete run used in the closed statements below: the path of two hops
  \<open>10.0.0.1, 10.0.0.2\<close> on a transport channel with an empty listener table; the JSON codec
  replaced by one that keeps the destination address only; a send that succeeds; the
  packet sent at instant 100; and either the reply arriving at instant 150 or the timer
  firing at instant 3100.
\<close>

definition two_hops :: Path where
  "two_hops = [[10, 0, 0, 1], [10, 0, 0, 2]]"

definition fresh_tc :: TransportChannel where
  "fresh_tc = \<lparr>tc_filter = ''ip proto 4'', listenerMap = NewListenerMap\<rparr>"

definition reply_packet :: Packet where
  "reply_packet =
     \<lparr>ip4 = Some ([10, 0, 0, 2], [10, 0, 0, 1]), udp = Some [10, 0, 0, 2],
      app = Some [10, 0, 0, 2]\<rparr>"

definition scenario_env :: "arrival \<Rightarrow> BoomerangEnv" where
  "scenario_env a =
     \<lparr>uuid_New = ''u1'',
      json_Marshal = (\<lambda>p. Inr (DestIP p)),
      json_Unmarshal = (\<lambda>b. zeroPayload\<lparr>DestIP := b, ID := ''u1''\<rparr>),
      buf_Bytes = (\<lambda>w. []),
      tc_SendTo = (\<lambda>b a. None),
      time_Now_tx = 100,
      IP_String = (\<lambda>a. ''10.0.0.2''),
      select_case = a\<rparr>"

subsection \<open>path.go: GetPathChannelTo\<close>

text \<open>
  What a run of \<^verbatim>\<open>GetPathChannelTo\<close> takes from outside. \<^verbatim>\<open>FindSourceIPForDest\<close> and
  \<^verbatim>\<open>buildUDPTraceroutePacket\<close> are not among the sources: they are parameters, the builder
  giving the error it returns (\<open>None\<close> for nil). \<open>listenerReady\<close> says whether the capturing
  goroutine ever receives a packet, and so ever sends its ready signal. \<open>ttl_select\<close> gives
  the case of the \<^verbatim>\<open>select\<close> that fires for a TTL: a hop on \<^verbatim>\<open>found\<close>, the timer, or
  \<^verbatim>\<open>done\<close>. The errors of \<^verbatim>\<open>SendTo\<close> are printed and otherwise ignored. A \<^verbatim>\<open>net.IP\<close>
  that may be nil is an \<open>IP option\<close>, \<open>None\<close> for nil: the override of the source address,
  and the entries of the hop channel.
\<close>

record PathChannelParams =
  destIP :: IP
  overrideSourceIP :: "IP option"
  timeoutMs :: int

datatype hop_select = FoundHop IP | TimerExpired | DoneSignal

record PathEnv =
  FindSourceIPForDest :: "IP \<Rightarrow> error + IP"
  buildUDPTraceroutePacket :: "IP \<Rightarrow> IP \<Rightarrow> 8 word \<Rightarrow> byte list \<Rightarrow> error option"
  listenerReady :: bool
  ttl_select :: "8 word \<Rightarrow> hop_select"

definition Hello :: "byte list" where
  "Hello = [72, 101, 108, 108, 111]"

text \<open>
  \<^verbatim>\<open>
  defer close(pathChan)
  var ttl uint8
  for ttl = 1; ttl <= 32; ttl++ {
      err = buildUDPTraceroutePacket(sourceIP, params.destIP, ttl, []byte("Hello"), buf)
      if err != nil { fmt.Println(err); done <- err }
      err := tc.SendTo(buf.Bytes(), params.destIP)
      select {
      case ip := <-found:  pathChan <- ip
      case <-time.After(...): pathChan <- nil
      case <-done: return
      }
  }
  \<close>
  \<^verbatim>\<open>done\<close> is unbuffered and read by this goroutine only, so \<^verbatim>\<open>done <- err\<close> never
  completes and the channel is never closed.
\<close>

function ttl_loop ::
  "PathEnv \<Rightarrow> IP \<Rightarrow> IP \<Rightarrow> 8 word \<Rightarrow> IP option list \<Rightarrow> IP option stream" where
  "ttl_loop env sourceIP dst ttl out =
     (if ttl \<le> 32
      then (case buildUDPTraceroutePacket env sourceIP dst ttl Hello of
              Some err \<Rightarrow> \<lparr>emitted = out, ending = NeverClosed\<rparr>
            | None \<Rightarrow>
                (case ttl_select env ttl of
                   FoundHop ip \<Rightarrow> ttl_loop env sourceIP dst (ttl + 1) (out @ [Some ip])
                 | TimerExpired \<Rightarrow> ttl_loop env sourceIP dst (ttl + 1) (out @ [None])
                 | DoneSignal \<Rightarrow> \<lparr>emitted = out, ending = Closed\<rparr>))
      else \<lparr>emitted = out, ending = Closed\<rparr>)"
  by pat_completeness auto
termination
proof (relation "measure (\<lambda>(env, sourceIP, dst, ttl, out). 33 - unat ttl)")
  show "wf (measure (\<lambda>(env, sourceIP, dst, ttl, out). 33 - unat ttl))"
    by simp
next
  fix env :: PathEnv and sourceIP dst :: IP and ttl :: "8 word" and out :: "IP option list"
    and x3
  assume "ttl \<le> 32"
  then have "unat ttl \<le> 32"
    by (simp add: word_le_nat_alt)
  then have "unat (ttl + 1) = unat ttl + 1"
    by (simp add: unat_word_ariths)
  then show "((env, sourceIP, dst, ttl + 1, out @ [Some x3]), env, sourceIP, dst, ttl, out)
               \<in> measure (\<lambda>(env, sourceIP, dst, ttl, out). 33 - unat ttl)"
    using \<open>unat ttl \<le> 32\<close> by simp
next
  fix env :: PathEnv and sourceIP dst :: IP and ttl :: "8 word" and out :: "IP option list"
  assume "ttl \<le> 32"
  then have "unat ttl \<le> 32"
    by (simp add: word_le_nat_alt)
  then have "unat (ttl + 1) = unat ttl + 1"
    by (simp add: unat_word_ariths)
  then show "((env, sourceIP, dst, ttl + 1, out @ [None]), env, sourceIP, dst, ttl, out)
               \<in> measure (\<lambda>(env, sourceIP, dst, ttl, out). 33 - unat ttl)"
    using \<open>unat ttl \<le> 32\<close> by simp
qed

declare ttl_loop.simps [simp del]

text \<open>
  \<^verbatim>\<open>GetPathChannelTo\<close>: the filter must be exactly \<^verbatim>\<open>"icmp"\<close>; the source address is the
  one found for the destination unless the caller overrides it; the sending goroutine builds
  and sends a first packet of TTL 2, waits for the ready signal of the capturing goroutine
  (\<^verbatim>\<open><-listenerReady\<close>), and only then runs the TTL loop. The result is the error returned,
  or what the hop channel carries.
\<close>

definition GetPathChannelTo ::
  "TransportChannel \<Rightarrow> PathEnv \<Rightarrow> PathChannelParams \<Rightarrow> error + IP option stream" where
  "GetPathChannelTo tc env params =
     (if tc_filter tc \<noteq> ''icmp''
      then Inl (''BPF filter must be icmp: got '' @ tc_filter tc @ '' instead'')
      else
        case FindSourceIPForDest env (destIP params) of
          Inl err \<Rightarrow> Inl err
        | Inr found \<Rightarrow>
            let sourceIP = (case overrideSourceIP params of
                              Some override \<Rightarrow> override
                            | None \<Rightarrow> found)
            in Inr (case buildUDPTraceroutePacket env sourceIP (destIP params) 2 Hello of
                      Some err \<Rightarrow> \<lparr>emitted = [], ending = NeverClosed\<rparr>
                    | None \<Rightarrow>
                        if listenerReady env
                        then ttl_loop env sourceIP (destIP params) 1 []
                        else \<lparr>emitted = [], ending = NeverClosed\<rparr>))"

text \<open>
  A scenario for path discovery: every packet builds, the source address is found, and
  every wait of the TTL loop ends by its timer; the capture either sees some packet that
  is not a classified response (the ready signal is sent) or sees nothing at all.
\<close>

definition silent_env :: "bool \<Rightarrow> PathEnv" where
  "silent_env ready =
     \<lparr>FindSourceIPForDest = (\<lambda>d. Inr [10, 0, 0, 1]),
      buildUDPTraceroutePacket = (\<lambda>s d ttl payload. None),
      listenerReady = ready,
      ttl_select = (\<lambda>ttl. TimerExpired)\<rparr>"

definition icmp_tc :: TransportChannel where
  "icmp_tc = \<lparr>tc_filter = ''icmp'', listenerMap = NewListenerMap\<rparr>"

definition to_dest :: PathChannelParams where
  "to_dest = \<lparr>destIP = [10, 0, 0, 9], overrideSourceIP = None, timeoutMs = 100\<rparr>"


section \<open>Properties\<close>

subsection \<open>SubPath\<close>

lemma IP_Equal_refl: "IP_Equal x x"
  by (simp add: IP_Equal_def)

lemma SubPath_loop_absent:
  "(\<And>i. idx \<le> i \<Longrightarrow> i < length p \<Longrightarrow> \<not> IP_Equal x (p ! i)) \<Longrightarrow> SubPath_loop p x idx = []"
proof (induction p x idx rule: SubPath_loop.induct)
  case (1 p lastHop idx)
  show ?case
  proof (cases "idx < length p")
    case True
    then have ne: "\<not> IP_Equal lastHop (p ! idx)"
      using "1.prems" [of idx] by simp
    have "SubPath_loop p lastHop (idx + 1) = []"
      using "1.IH" [OF True ne] "1.prems" by simp
    then show ?thesis
      using True ne by (subst SubPath_loop.simps) simp
  next
    case False
    then show ?thesis by (subst SubPath_loop.simps) simp
  qed
qed

lemma SubPath_loop_first:
  "idx \<le> j \<Longrightarrow> j < length p \<Longrightarrow> IP_Equal x (p ! j) \<Longrightarrow>
   (\<And>i. idx \<le> i \<Longrightarrow> i < j \<Longrightarrow> \<not> IP_Equal x (p ! i)) \<Longrightarrow>
   SubPath_loop p x idx = take (j + 1) p"
proof (induction p x idx rule: SubPath_loop.induct)
  case (1 p lastHop idx)
  have inb: "idx < length p" using "1.prems"(1,2) by simp
  show ?case
  proof (cases "idx = j")
    case True
    then show ?thesis
      using inb "1.prems"(3) by (subst SubPath_loop.simps) simp
  next
    case False
    then have lt: "idx < j" using "1.prems"(1) by simp
    then have ne: "\<not> IP_Equal lastHop (p ! idx)"
      using "1.prems"(4) [of idx] by simp
    have "SubPath_loop p lastHop (idx + 1) = take (j + 1) p"
      using "1.IH" [OF inb ne] lt "1.prems"(2,3,4) by simp
    then show ?thesis
      using inb ne by (subst SubPath_loop.simps) simp
  qed
qed

lemma SubPath_least:
  assumes "k < length P"
  shows "\<exists>j\<le>k. IP_Equal (P ! k) (P ! j) \<and> (\<forall>i<j. \<not> IP_Equal (P ! k) (P ! i)) \<and>
           SubPath P (P ! k) = take (j + 1) P"
proof -
  define j where "j = (LEAST j. IP_Equal (P ! k) (P ! j))"
  have eq: "IP_Equal (P ! k) (P ! j)"
    unfolding j_def by (rule LeastI [of _ k]) (rule IP_Equal_refl)
  have le: "j \<le> k"
    unfolding j_def by (rule Least_le) (rule IP_Equal_refl)
  have least: "\<not> IP_Equal (P ! k) (P ! i)" if "i < j" for i
    using that not_less_Least unfolding j_def by blast
  have "SubPath P (P ! k) = take (j + 1) P"
    unfolding SubPath_def
    using le assms eq least by (intro SubPath_loop_first) simp_all
  then show ?thesis using eq le least by blast
qed

text \<open>
  C6, as the claim states it, fails on a path that visits an address twice: asked for the
  address at index 2, which already stands at index 0, \<open>SubPath\<close> returns the one-element
  prefix, not the prefix of three hops.
\<close>

theorem SubPath_repeated_hop_counterexample:
  "SubPath [[10, 0, 0, 1], [10, 0, 0, 2], [10, 0, 0, 1]]
       ([[10, 0, 0, 1], [10, 0, 0, 2], [10, 0, 0, 1]] ! 2)
     = [[10, 0, 0, 1]] \<and>
   SubPath [[10, 0, 0, 1], [10, 0, 0, 2], [10, 0, 0, 1]]
       ([[10, 0, 0, 1], [10, 0, 0, 2], [10, 0, 0, 1]] ! 2)
     \<noteq> take (2 + 1) [[10, 0, 0, 1], [10, 0, 0, 2], [10, 0, 0, 1]]"
  by (simp add: SubPath_def SubPath_loop.simps IP_Equal_def)

text \<open>
  C6 (amended): for every path \<open>P\<close> and every index \<open>k < |P|\<close>, \<open>SubPath P (P ! k)\<close> is the
  prefix of \<open>P\<close> that ends at the first index \<open>j \<le> k\<close> whose address equals \<open>P ! k\<close> (the
  minimal prefix ending at that address); it is the prefix \<open>P[0..k]\<close> inclusive when no
  earlier hop equals \<open>P ! k\<close>; and for an address \<open>X\<close> equal to no hop of \<open>P\<close> the result is
  the empty path.
\<close>

theorem SubPath_minimal_prefix:
  "(k < length P \<longrightarrow>
      (\<exists>j\<le>k. IP_Equal (P ! k) (P ! j) \<and> (\<forall>i<j. \<not> IP_Equal (P ! k) (P ! i)) \<and>
         SubPath P (P ! k) = take (j + 1) P)) \<and>
   (k < length P \<and> (\<forall>i<k. \<not> IP_Equal (P ! k) (P ! i)) \<longrightarrow>
      SubPath P (P ! k) = take (k + 1) P) \<and>
   ((\<forall>i<length P. \<not> IP_Equal X (P ! i)) \<longrightarrow> SubPath P X = [])"
proof (intro conjI impI)
  assume "k < length P"
  then show "\<exists>j\<le>k. IP_Equal (P ! k) (P ! j) \<and> (\<forall>i<j. \<not> IP_Equal (P ! k) (P ! i)) \<and>
      SubPath P (P ! k) = take (j + 1) P"
    by (rule SubPath_least)
next
  assume a: "k < length P \<and> (\<forall>i<k. \<not> IP_Equal (P ! k) (P ! i))"
  show "SubPath P (P ! k) = take (k + 1) P"
    unfolding SubPath_def
    using a by (intro SubPath_loop_first) (simp_all add: IP_Equal_refl)
next
  assume "\<forall>i<length P. \<not> IP_Equal X (P ! i)"
  then show "SubPath P X = []"
    unfolding SubPath_def by (intro SubPath_loop_absent) simp
qed

theorem SubPath_minimal_prefix_witness:
  "(1::nat) < length [[10, 0, 0, 1], [10, 0, 0, 2], [10, 0, 0, 3 :: byte]] \<and>
   \<not> IP_Equal [10, 0, 0, 2] [10, 0, 0, 1 :: byte] \<and>
   SubPath [[10, 0, 0, 1], [10, 0, 0, 2], [10, 0, 0, 3]] [10, 0, 0, 2]
     = [[10, 0, 0, 1], [10, 0, 0, 2]] \<and>
   SubPath [[10, 0, 0, 1], [10, 0, 0, 2], [10, 0, 0, 3]] [10, 0, 0, 9] = []"
  using SubPath_minimal_prefix
    [of 1 "[[10, 0, 0, 1], [10, 0, 0, 2], [10, 0, 0, 3]]" "[10, 0, 0, 9]"]
  by (simp add: IP_Equal_def nth_Cons' less_Suc_eq)

subsection \<open>SendToPath\<close>

text \<open>
  C3: \<open>SendToPath\<close> on a path of exactly one hop. The guard \<^verbatim>\<open>len(path) < 1\<close> lets the
  path through, and \<^verbatim>\<open>path[1]\<close> is then out of range: the call panics. It returns the
  guard's error on the empty path and the result of the send to \<open>path[1]\<close> on a path of
  two hops or more.
\<close>

theorem SendToPath_one_hop_panics:
  "SendToPath SendTo b [] = Returns (Some ''path must be non-empty'') \<and>
   SendToPath SendTo b [[10, 0, 0, 1]] = Panics \<and>
   SendToPath SendTo b (h0 # h1 # rest) = Returns (SendTo b h1)"
  by (simp add: SendToPath_def)

subsection \<open>CreateRoundTripPacketForPath\<close>

lemma store_in_range:
  "i < length xs \<Longrightarrow> store xs (int i) v = Some (xs[i := v])"
  by (simp add: store_def)

lemma round_trip_step_in_range:
  assumes "idx < m" and "length ls = m"
  shows "round_trip_step P (int m) ov idx ls =
           Some (ls[idx := Some (outgoing P (int m) ov idx),
                    m - 1 - idx := Some (returning P ov idx)])"
proof -
  have "int m - int idx - 1 = int (m - 1 - idx)" using assms(1) by simp
  moreover have "m - 1 - idx < m" using assms(1) by simp
  ultimately show ?thesis
    using assms
    by (simp add: round_trip_step_def Let_def store_in_range outgoing_def returning_def
        del: of_nat_diff)
qed

lemma round_trip_loop_nth:
  assumes "length ls = m" and "\<forall>idx\<in>set idxs. idx < n - 1" and "m = 2 * (n - 1)"
  shows "\<exists>ls'. round_trip_loop P (int m) ov idxs ls = Some ls' \<and> length ls' = m \<and>
           (\<forall>j<m. ls' ! j =
              (if j \<in> set idxs then Some (outgoing P (int m) ov j)
               else if m - 1 - j \<in> set idxs then Some (returning P ov (m - 1 - j))
               else ls ! j))"
  using assms
proof (induction idxs arbitrary: ls)
  case Nil
  then show ?case by simp
next
  case (Cons idx rest)
  let ?ls1 = "ls[idx := Some (outgoing P (int m) ov idx),
                 m - 1 - idx := Some (returning P ov idx)]"
  have idx: "idx < n - 1" using Cons.prems(2) by simp
  then have idxm: "idx < m" using Cons.prems(3) by simp
  have step: "round_trip_step P (int m) ov idx ls = Some ?ls1"
    using idxm Cons.prems(1) by (rule round_trip_step_in_range)
  have len1: "length ?ls1 = m" using Cons.prems(1) by simp
  have rest: "\<forall>i\<in>set rest. i < n - 1" using Cons.prems(2) by simp
  obtain ls' where run: "round_trip_loop P (int m) ov rest ?ls1 = Some ls'"
    and len': "length ls' = m"
    and nth': "\<forall>j<m. ls' ! j =
              (if j \<in> set rest then Some (outgoing P (int m) ov j)
               else if m - 1 - j \<in> set rest then Some (returning P ov (m - 1 - j))
               else ?ls1 ! j)"
    using Cons.IH [OF len1 rest Cons.prems(3)] by blast
  have "ls' ! j =
              (if j \<in> set (idx # rest) then Some (outgoing P (int m) ov j)
               else if m - 1 - j \<in> set (idx # rest) then Some (returning P ov (m - 1 - j))
               else ls ! j)" if j: "j < m" for j
  proof -
    have far: "m - 1 - j \<in> set rest \<Longrightarrow> j \<noteq> idx"
      using rest idx Cons.prems(3) j by (auto; linarith)
    have mirror: "m - 1 - j = idx \<longleftrightarrow> j = m - 1 - idx"
      using j idxm by auto
    have apart: "m - 1 - idx \<noteq> idx"
      using idx Cons.prems(3) by linarith
    show ?thesis
      using nth' j far mirror apart Cons.prems(1) idxm
      by (auto simp: nth_list_update)
  qed
  then show ?case using step run len' by simp
qed

lemma round_trip_loop_all:
  assumes "2 \<le> n" and "m = 2 * (n - 1)"
  shows "round_trip_loop P (int m) ov [0..<n - 1] (replicate m None) =
           Some (map Some (map (outgoing P (int m) ov) [0..<n - 1] @
                           rev (map (returning P ov) [0..<n - 1])))"
proof -
  obtain ls' where run: "round_trip_loop P (int m) ov [0..<n - 1] (replicate m None) = Some ls'"
    and len': "length ls' = m"
    and nth': "\<forall>j<m. ls' ! j =
              (if j \<in> set [0..<n - 1] then Some (outgoing P (int m) ov j)
               else if m - 1 - j \<in> set [0..<n - 1] then Some (returning P ov (m - 1 - j))
               else replicate m None ! j)"
    using round_trip_loop_nth [of "replicate m None" m "[0..<n - 1]" n P ov] assms by auto
  have "ls' = map Some (map (outgoing P (int m) ov) [0..<n - 1] @
                           rev (map (returning P ov) [0..<n - 1]))"
  proof (rule nth_equalityI)
    show "length ls' = length (map Some (map (outgoing P (int m) ov) [0..<n - 1] @
                           rev (map (returning P ov) [0..<n - 1])))"
      using len' assms by simp
  next
    fix j assume "j < length ls'"
    then have j: "j < m" using len' by simp
    show "ls' ! j = map Some (map (outgoing P (int m) ov) [0..<n - 1] @
                           rev (map (returning P ov) [0..<n - 1])) ! j"
    proof (cases "j < n - 1")
      case True
      then show ?thesis using nth' j by (simp add: nth_append)
    next
      case False
      then have mir: "m - 1 - j < n - 1" "j - (n - 1) < n - 1"
        and idx: "n - 1 - Suc (j - (n - 1)) = m - 1 - j"
        using j assms by auto
      show ?thesis
        using nth' j False mir idx by (simp add: nth_append rev_nth)
    qed
  qed
  then show ?thesis using run by simp
qed


lemma SerializeTo_serializable: "serializable l \<Longrightarrow> SerializeTo l = Inr (on_wire l)"
  by (cases l) (simp_all add: serializable_def SerializeTo_def on_wire_def)

lemma serialize_from_last_all:
  "list_all serializable ls \<Longrightarrow>
   serialize_from_last (map Some ls) w = Returns (Inr (rev (map on_wire ls) @ w))"
  by (induction ls arbitrary: w) (simp_all add: SerializeTo_serializable)

lemma SerializeLayers_all:
  assumes "list_all serializable ls"
  shows "SerializeLayers (map Some ls) = Returns (Inr (map on_wire ls))"
proof -
  have "list_all serializable (rev ls)" using assms by (simp add: list_all_iff)
  then have "serialize_from_last (map Some (rev ls)) [] =
               Returns (Inr (rev (map on_wire (rev ls)) @ []))"
    by (rule serialize_from_last_all)
  then show ?thesis
    unfolding SerializeLayers_def by (simp add: rev_map)
qed

lemma on_wire_outgoing:
  "on_wire (outgoing P numLayers ov i) =
     IPv4Layer (buildIPIPLayer (To4 (P ! i)) (To4 (P ! (i + 1)))
       (word_of_int (ipHeaderLen * (numLayers - int i) + ov)))"
  by (simp add: on_wire_def outgoing_def buildIPIPLayer_def)

lemma on_wire_returning:
  "on_wire (returning P ov i) =
     IPv4Layer (buildIPIPLayer (To4 (P ! (i + 1))) (To4 (P ! i))
       (word_of_int (ipHeaderLen * (int i + 1) + ov)))"
  by (simp add: on_wire_def returning_def buildIPIPLayer_def)

lemma on_wire_udp:
  "on_wire (IPv4Layer (buildUDPLayer s d len)) = IPv4Layer (buildUDPLayer (To4 s) (To4 d) len)"
  by (simp add: on_wire_def buildUDPLayer_def)

lemma on_wire_payload: "on_wire (PayloadLayer p) = PayloadLayer p"
  by (simp add: on_wire_def)

lemma serializable_hops:
  assumes "\<forall>h\<in>set P. To4 h \<noteq> []" and "i + 1 < length P"
  shows "serializable (outgoing P numLayers ov i)" and "serializable (returning P ov i)"
  using assms by (simp_all add: serializable_def outgoing_def returning_def buildIPIPLayer_def)

lemma CreateRoundTripPacketForPath_closed_form:
  assumes "2 \<le> length P" and "\<forall>h\<in>set P. To4 h \<noteq> []"
  shows "CreateRoundTripPacketForPath P payload =
     Returns (Inr
       (map (\<lambda>i. IPv4Layer (buildIPIPLayer (To4 (P ! i)) (To4 (P ! (i + 1)))
               (word_of_int (ipHeaderLen * (2 * (int (length P) - 1) - int i) +
                  (int (length payload) + udpHeaderLen + ipHeaderLen)))))
          [0..<length P - 1] @
        rev (map (\<lambda>i. IPv4Layer (buildIPIPLayer (To4 (P ! (i + 1))) (To4 (P ! i))
               (word_of_int (ipHeaderLen * (int i + 1) +
                  (int (length payload) + udpHeaderLen + ipHeaderLen)))))
          [0..<length P - 1]) @
        [IPv4Layer (buildUDPLayer (To4 (P ! 1)) (To4 (P ! 0))
           (word_of_int (ipHeaderLen + udpHeaderLen + int (length payload)))),
         PayloadLayer payload]))"
proof -
  define n where "n = length P"
  define m where "m = 2 * (n - 1)"
  define ov where "ov = int (length payload) + udpHeaderLen + ipHeaderLen"
  define udp where "udp = IPv4Layer (buildUDPLayer (P ! 1) (P ! 0)
                      (word_of_int (ipHeaderLen + udpHeaderLen + int (length payload))))"
  define ls where "ls = map (outgoing P (int m) ov) [0..<n - 1] @
                           rev (map (returning P ov) [0..<n - 1])"
  have n2: "2 \<le> n" using assms(1) n_def by simp
  have im: "2 * (int n - 1) = int m" using n2 m_def by simp
  have loop: "round_trip_loop P (int m) ov [0..<n - 1] (replicate m None) = Some (map Some ls)"
    unfolding ls_def using n2 m_def by (rule round_trip_loop_all)
  have len0: "0 < length P" and len1: "1 < length P"
    using assms(1) by linarith+
  have "P ! 0 \<in> set P" and "P ! 1 \<in> set P"
    using nth_mem [OF len0] nth_mem [OF len1] by blast+
  then have P0: "To4 (P ! 0) \<noteq> []" and P1: "To4 (P ! 1) \<noteq> []"
    using assms(2) by blast+
  have ok: "list_all serializable (ls @ [udp, PayloadLayer payload])"
    using serializable_hops [OF assms(2)] P0 P1
    by (auto simp: ls_def list_all_iff n_def udp_def serializable_def buildUDPLayer_def)
  have "CreateRoundTripPacketForPath P payload =
          SerializeLayers (map Some (ls @ [udp, PayloadLayer payload]))"
    using assms(1) loop im
    by (simp add: CreateRoundTripPacketForPath_def Let_def n_def [symmetric] ov_def [symmetric]
        udp_def nat_mult_distrib)
  also have "\<dots> = Returns (Inr (map on_wire (ls @ [udp, PayloadLayer payload])))"
    using ok by (rule SerializeLayers_all)
  finally show ?thesis
    using im
    by (simp add: ls_def on_wire_outgoing on_wire_returning on_wire_udp on_wire_payload
        rev_map n_def ov_def udp_def comp_def)
qed


text \<open>
  C1 fails in the builder scenario, the path \<open>[10.0.0.1, 10.0.0.2, 10.0.0.3]\<close> with the
  payload \<open>"x"\<close>. The call succeeds and the buffer holds the four IP-in-IP headers
  \<open>1 \<rightarrow> 2\<close>, \<open>2 \<rightarrow> 3\<close>, \<open>3 \<rightarrow> 2\<close>, \<open>2 \<rightarrow> 1\<close> and a last IPv4 header from \<open>10.0.0.2\<close> to
  \<open>10.0.0.1\<close> whose protocol field says UDP, but no UDP segment: the payload byte follows
  that header at once. The six layers take 20, 20, 20, 20, 20 and 1 bytes, 101 in all,
  where a UDP header of \<open>udpHeaderLen\<close> bytes in front of the payload would make 109; the
  last IPv4 header announces 29 bytes and 21 are there.
\<close>

theorem CreateRoundTripPacketForPath_no_udp_segment:
  "\<exists>w. CreateRoundTripPacketForPath [[10, 0, 0, 1], [10, 0, 0, 2], [10, 0, 0, 3]] [120] =
          Returns (Inr w) \<and>
    w = [IPv4Layer \<lparr>Version = 4, IHL = 5, Length = 109, Flags = 2, TTL = 255,
                      Protocol = 4, SrcIP = [10, 0, 0, 1], DstIP = [10, 0, 0, 2]\<rparr>,
            IPv4Layer \<lparr>Version = 4, IHL = 5, Length = 89, Flags = 2, TTL = 255,
                      Protocol = 4, SrcIP = [10, 0, 0, 2], DstIP = [10, 0, 0, 3]\<rparr>,
            IPv4Layer \<lparr>Version = 4, IHL = 5, Length = 69, Flags = 2, TTL = 255,
                      Protocol = 4, SrcIP = [10, 0, 0, 3], DstIP = [10, 0, 0, 2]\<rparr>,
            IPv4Layer \<lparr>Version = 4, IHL = 5, Length = 49, Flags = 2, TTL = 255,
                      Protocol = 4, SrcIP = [10, 0, 0, 2], DstIP = [10, 0, 0, 1]\<rparr>,
            IPv4Layer \<lparr>Version = 4, IHL = 5, Length = 29, Flags = 2, TTL = 255,
                      Protocol = 17, SrcIP = [10, 0, 0, 2], DstIP = [10, 0, 0, 1]\<rparr>,
            PayloadLayer [120]] \<and>
    map isIPIP w = [True, True, True, True, False, False] \<and>
    map layer_size w = [20, 20, 20, 20, 20, 1] \<and>
    wire_length w = 101 \<and>
    drop 5 w = [PayloadLayer [120]] \<and>
    wire_length (drop 5 w) = 1 \<and>
    udpHeaderLen + int (length [120 :: byte]) = 9 \<and>
    wire_length (drop 4 w) = 21"
proof -
  have hops3: "\<forall>h\<in>set [[10, 0, 0, 1], [10, 0, 0, 2], [10, 0, 0, 3 :: byte]]. To4 h \<noteq> []"
    by (simp add: To4_def IPv4len_def)
  have up: "[0..<2] = [0, 1::nat]"
    by (simp add: upt_rec)
  have built: "CreateRoundTripPacketForPath [[10, 0, 0, 1], [10, 0, 0, 2], [10, 0, 0, 3]] [120] =
     Returns (Inr
       [IPv4Layer \<lparr>Version = 4, IHL = 5, Length = 109, Flags = 2, TTL = 255,
                      Protocol = 4, SrcIP = [10, 0, 0, 1], DstIP = [10, 0, 0, 2]\<rparr>,
            IPv4Layer \<lparr>Version = 4, IHL = 5, Length = 89, Flags = 2, TTL = 255,
                      Protocol = 4, SrcIP = [10, 0, 0, 2], DstIP = [10, 0, 0, 3]\<rparr>,
            IPv4Layer \<lparr>Version = 4, IHL = 5, Length = 69, Flags = 2, TTL = 255,
                      Protocol = 4, SrcIP = [10, 0, 0, 3], DstIP = [10, 0, 0, 2]\<rparr>,
            IPv4Layer \<lparr>Version = 4, IHL = 5, Length = 49, Flags = 2, TTL = 255,
                      Protocol = 4, SrcIP = [10, 0, 0, 2], DstIP = [10, 0, 0, 1]\<rparr>,
            IPv4Layer \<lparr>Version = 4, IHL = 5, Length = 29, Flags = 2, TTL = 255,
                      Protocol = 17, SrcIP = [10, 0, 0, 2], DstIP = [10, 0, 0, 1]\<rparr>,
            PayloadLayer [120]])"
    using CreateRoundTripPacketForPath_closed_form [OF _ hops3, of "[120]"]
    by (simp add: up To4_def IPv4len_def ipHeaderLen_def udpHeaderLen_def buildIPIPLayer_def
        buildUDPLayer_def IPv4DontFragment_def IPProtocolIPv4_def IPProtocolUDP_def)
  show ?thesis
    unfolding built
    by (simp add: wire_length_def layer_size_def isIPIP_def IPProtocolIPv4_def
        udpHeaderLen_def)
qed

lemma uint_Length_16: "uint (word_of_int k :: 16 word) = k mod 65536"
  by (simp add: uint_word_of_int_eq take_bit_eq_mod)

text \<open>
  C2, as the claim states it, fails twice. In the builder scenario (three hops, the payload
  \<open>"x"\<close>) the outermost header carries \<open>Length = 109\<close> while the buffer holds 101 bytes: the
  lengths count a UDP header of 8 bytes that is never serialized. And \<open>Length\<close> is a 16-bit
  field: with two hops and a payload of 65500 bytes the sum \<open>20 \<sqdot> 2 + 8 + 20 + 65500 = 65568\<close>
  wraps to 32.
\<close>

theorem round_trip_length_counterexample:
  "CreateRoundTripPacketForPath [[10, 0, 0, 1], [10, 0, 0, 2], [10, 0, 0, 3]] [120] =
     Returns (Inr
       [IPv4Layer (buildIPIPLayer [10, 0, 0, 1] [10, 0, 0, 2] 109),
        IPv4Layer (buildIPIPLayer [10, 0, 0, 2] [10, 0, 0, 3] 89),
        IPv4Layer (buildIPIPLayer [10, 0, 0, 3] [10, 0, 0, 2] 69),
        IPv4Layer (buildIPIPLayer [10, 0, 0, 2] [10, 0, 0, 1] 49),
        IPv4Layer (buildUDPLayer [10, 0, 0, 2] [10, 0, 0, 1] 29),
        PayloadLayer [120]]) \<and>
   wire_length
       [IPv4Layer (buildIPIPLayer [10, 0, 0, 1] [10, 0, 0, 2] 109),
        IPv4Layer (buildIPIPLayer [10, 0, 0, 2] [10, 0, 0, 3] 89),
        IPv4Layer (buildIPIPLayer [10, 0, 0, 3] [10, 0, 0, 2] 69),
        IPv4Layer (buildIPIPLayer [10, 0, 0, 2] [10, 0, 0, 1] 49),
        IPv4Layer (buildUDPLayer [10, 0, 0, 2] [10, 0, 0, 1] 29),
        PayloadLayer [120]] = 101 \<and>
   CreateRoundTripPacketForPath [[10, 0, 0, 1], [10, 0, 0, 2]] (replicate 65500 0) =
     Returns (Inr
       [IPv4Layer (buildIPIPLayer [10, 0, 0, 1] [10, 0, 0, 2] 32),
        IPv4Layer (buildIPIPLayer [10, 0, 0, 2] [10, 0, 0, 1] 12),
        IPv4Layer (buildUDPLayer [10, 0, 0, 2] [10, 0, 0, 1] 65528),
        PayloadLayer (replicate 65500 0)])"
proof -
  have hops3: "\<forall>h\<in>set [[10, 0, 0, 1], [10, 0, 0, 2], [10, 0, 0, 3 :: byte]]. To4 h \<noteq> []"
    and hops2: "\<forall>h\<in>set [[10, 0, 0, 1], [10, 0, 0, 2 :: byte]]. To4 h \<noteq> []"
    by (simp_all add: To4_def IPv4len_def)
  have up: "[0..<2] = [0, 1::nat]"
    by (simp add: upt_rec)
  have a: "CreateRoundTripPacketForPath [[10, 0, 0, 1], [10, 0, 0, 2], [10, 0, 0, 3]] [120] =
     Returns (Inr
       [IPv4Layer (buildIPIPLayer [10, 0, 0, 1] [10, 0, 0, 2] 109),
        IPv4Layer (buildIPIPLayer [10, 0, 0, 2] [10, 0, 0, 3] 89),
        IPv4Layer (buildIPIPLayer [10, 0, 0, 3] [10, 0, 0, 2] 69),
        IPv4Layer (buildIPIPLayer [10, 0, 0, 2] [10, 0, 0, 1] 49),
        IPv4Layer (buildUDPLayer [10, 0, 0, 2] [10, 0, 0, 1] 29),
        PayloadLayer [120]])"
    using CreateRoundTripPacketForPath_closed_form [OF _ hops3, of "[120]"]
    by (simp add: up To4_def IPv4len_def ipHeaderLen_def udpHeaderLen_def)
  have b: "CreateRoundTripPacketForPath [[10, 0, 0, 1], [10, 0, 0, 2]] (replicate 65500 0) =
     Returns (Inr
       [IPv4Layer (buildIPIPLayer [10, 0, 0, 1] [10, 0, 0, 2] 32),
        IPv4Layer (buildIPIPLayer [10, 0, 0, 2] [10, 0, 0, 1] 12),
        IPv4Layer (buildUDPLayer [10, 0, 0, 2] [10, 0, 0, 1] 65528),
        PayloadLayer (replicate 65500 0)])"
    using CreateRoundTripPacketForPath_closed_form [OF _ hops2, of "replicate 65500 0"]
    by (simp add: To4_def IPv4len_def ipHeaderLen_def udpHeaderLen_def buildIPIPLayer_def)
  have c: "wire_length
       [IPv4Layer (buildIPIPLayer [10, 0, 0, 1] [10, 0, 0, 2] 109),
        IPv4Layer (buildIPIPLayer [10, 0, 0, 2] [10, 0, 0, 3] 89),
        IPv4Layer (buildIPIPLayer [10, 0, 0, 3] [10, 0, 0, 2] 69),
        IPv4Layer (buildIPIPLayer [10, 0, 0, 2] [10, 0, 0, 1] 49),
        IPv4Layer (buildUDPLayer [10, 0, 0, 2] [10, 0, 0, 1] 29),
        PayloadLayer [120]] = 101"
    by (simp add: wire_length_def layer_size_def)
  show ?thesis using a b c by simp
qed

text \<open>
  C2 (amended): in the packet built for a path of \<open>n \<ge> 2\<close> IPv4 addresses, the \<open>i\<close>-th outgoing
  header carries \<open>Length = (iphdr \<sqdot> (2(n-1) - i) + udphdr + iphdr + |payload|) mod 2\<^sup>1\<^sup>6\<close> and
  the symmetric returning header carries
  \<open>Length = (iphdr \<sqdot> (i+1) + udphdr + iphdr + |payload|) mod 2\<^sup>1\<^sup>6\<close>; for the three-hop path of
  the builder scenario with a payload of one byte the outermost \<open>Length\<close> is 109.
\<close>

theorem CreateRoundTripPacketForPath_lengths:
  "(2 \<le> length P \<and> (\<forall>h\<in>set P. To4 h \<noteq> []) \<longrightarrow>
     (\<exists>w. CreateRoundTripPacketForPath P payload = Returns (Inr w) \<and>
        (\<forall>i<length P - 1. \<exists>ip. w ! i = IPv4Layer ip \<and>
            uint (Length ip) =
              (ipHeaderLen * (2 * (int (length P) - 1) - int i) + udpHeaderLen + ipHeaderLen +
                 int (length payload)) mod 65536) \<and>
        (\<forall>i<length P - 1. \<exists>ip. w ! (2 * (length P - 1) - 1 - i) = IPv4Layer ip \<and>
            uint (Length ip) =
              (ipHeaderLen * (int i + 1) + udpHeaderLen + ipHeaderLen +
                 int (length payload)) mod 65536))) \<and>
   (\<exists>ip rest.
      CreateRoundTripPacketForPath [[10, 0, 0, 1], [10, 0, 0, 2], [10, 0, 0, 3]] [x] =
        Returns (Inr (IPv4Layer ip # rest)) \<and>
      uint (Length ip) = 109)"
proof (intro conjI impI)
  assume a: "2 \<le> length P \<and> (\<forall>h\<in>set P. To4 h \<noteq> [])"
  define d :: "nat \<Rightarrow> int" where
    "d = (\<lambda>i. ipHeaderLen * (2 * (int (length P) - 1) - int i) +
                  (int (length payload) + udpHeaderLen + ipHeaderLen))"
  define r :: "nat \<Rightarrow> int" where
    "r = (\<lambda>i. ipHeaderLen * (int i + 1) +
                  (int (length payload) + udpHeaderLen + ipHeaderLen))"
  define out where "out = map (\<lambda>i. IPv4Layer (buildIPIPLayer (To4 (P ! i)) (To4 (P ! (i + 1)))
               (word_of_int (d i)))) [0..<length P - 1]"
  define ret where "ret = map (\<lambda>i. IPv4Layer (buildIPIPLayer (To4 (P ! (i + 1))) (To4 (P ! i))
               (word_of_int (r i)))) [0..<length P - 1]"
  define tl where "tl = [IPv4Layer (buildUDPLayer (To4 (P ! 1)) (To4 (P ! 0))
           (word_of_int (ipHeaderLen + udpHeaderLen + int (length payload)))),
         PayloadLayer payload]"
  define w where "w = out @ rev ret @ tl"
  have run: "CreateRoundTripPacketForPath P payload = Returns (Inr w)"
    unfolding w_def out_def ret_def tl_def d_def r_def
    using a by (intro CreateRoundTripPacketForPath_closed_form) simp_all
  have lens: "length out = length P - 1" "length ret = length P - 1"
    by (simp_all add: out_def ret_def)
  have field: "Length (buildIPIPLayer s t l) = l" for s t l
    by (simp add: buildIPIPLayer_def)
  have dep: "\<exists>ip. w ! i = IPv4Layer ip \<and>
            uint (Length ip) =
              (ipHeaderLen * (2 * (int (length P) - 1) - int i) + udpHeaderLen + ipHeaderLen +
                 int (length payload)) mod 65536" if "i < length P - 1" for i
  proof -
    have "w ! i = out ! i" using that lens by (simp add: w_def nth_append)
    then have "w ! i = IPv4Layer (buildIPIPLayer (To4 (P ! i)) (To4 (P ! (i + 1)))
               (word_of_int (d i)))"
      using that by (simp add: out_def)
    moreover have "d i = ipHeaderLen * (2 * (int (length P) - 1) - int i) + udpHeaderLen +
        ipHeaderLen + int (length payload)"
      by (simp add: d_def)
    ultimately show ?thesis
      by (simp only: field uint_Length_16 SerializableLayer.inject simp_thms ex_simps)
  qed
  have arr: "\<exists>ip. w ! (2 * (length P - 1) - 1 - i) = IPv4Layer ip \<and>
            uint (Length ip) =
              (ipHeaderLen * (int i + 1) + udpHeaderLen + ipHeaderLen +
                 int (length payload)) mod 65536" if "i < length P - 1" for i
  proof -
    define n1 where "n1 = length P - 1"
    have i: "i < n1" using that by (simp add: n1_def)
    have split: "2 * n1 - 1 - i = length out + (n1 - Suc i)"
      and lt: "n1 - Suc i < length (rev ret)"
      and mirror: "length ret - Suc (n1 - Suc i) = i"
      using i by (simp_all add: out_def ret_def n1_def)
    have "w ! (2 * n1 - 1 - i) = (rev ret @ tl) ! (n1 - Suc i)"
      unfolding w_def split by (rule nth_append_length_plus)
    also have "\<dots> = rev ret ! (n1 - Suc i)"
      using lt by (simp only: nth_append if_True)
    also have "\<dots> = ret ! i"
      using lt mirror by (simp only: rev_nth length_rev)
    also note n1_def
    finally have "w ! (2 * (length P - 1) - 1 - i) =
        IPv4Layer (buildIPIPLayer (To4 (P ! (i + 1))) (To4 (P ! i)) (word_of_int (r i)))"
      using that by (simp add: ret_def)
    moreover have "r i = ipHeaderLen * (int i + 1) + udpHeaderLen + ipHeaderLen +
        int (length payload)"
      by (simp add: r_def)
    ultimately show ?thesis
      by (simp only: field uint_Length_16 SerializableLayer.inject simp_thms ex_simps)
  qed
  show "\<exists>w. CreateRoundTripPacketForPath P payload = Returns (Inr w) \<and>
        (\<forall>i<length P - 1. \<exists>ip. w ! i = IPv4Layer ip \<and>
            uint (Length ip) =
              (ipHeaderLen * (2 * (int (length P) - 1) - int i) + udpHeaderLen + ipHeaderLen +
                 int (length payload)) mod 65536) \<and>
        (\<forall>i<length P - 1. \<exists>ip. w ! (2 * (length P - 1) - 1 - i) = IPv4Layer ip \<and>
            uint (Length ip) =
              (ipHeaderLen * (int i + 1) + udpHeaderLen + ipHeaderLen +
                 int (length payload)) mod 65536)"
    using run dep arr by blast
next
  have hops3: "\<forall>h\<in>set [[10, 0, 0, 1], [10, 0, 0, 2], [10, 0, 0, 3 :: byte]]. To4 h \<noteq> []"
    by (simp add: To4_def IPv4len_def)
  have up: "[0..<2] = [0, 1::nat]"
    by (simp add: upt_rec)
  show "\<exists>ip rest.
      CreateRoundTripPacketForPath [[10, 0, 0, 1], [10, 0, 0, 2], [10, 0, 0, 3]] [x] =
        Returns (Inr (IPv4Layer ip # rest)) \<and>
      uint (Length ip) = 109"
    using CreateRoundTripPacketForPath_closed_form [OF _ hops3, of "[x]"]
    by (simp add: up buildIPIPLayer_def ipHeaderLen_def udpHeaderLen_def)
qed


theorem CreateRoundTripPacketForPath_lengths_witness:
  "(2::nat) \<le> length [[10, 0, 0, 1], [10, 0, 0, 2], [10, 0, 0, 3 :: byte]] \<and>
   To4 [10, 0, 0, 1] \<noteq> [] \<and> To4 [10, 0, 0, 2] \<noteq> [] \<and> To4 [10, 0, 0, 3] \<noteq> [] \<and>
   (\<exists>w. CreateRoundTripPacketForPath [[10, 0, 0, 1], [10, 0, 0, 2], [10, 0, 0, 3]] [120] =
          Returns (Inr w) \<and>
        (\<exists>ip. w ! 0 = IPv4Layer ip \<and> uint (Length ip) = 109) \<and>
        (\<exists>ip. w ! 3 = IPv4Layer ip \<and> uint (Length ip) = 49))"
proof -
  let ?P = "[[10, 0, 0, 1], [10, 0, 0, 2], [10, 0, 0, 3 :: byte]]"
  have hyp: "2 \<le> length ?P \<and> (\<forall>h\<in>set ?P. To4 h \<noteq> [])"
    by (simp add: To4_def IPv4len_def)
  obtain w where run: "CreateRoundTripPacketForPath ?P [120] = Returns (Inr w)"
    and dep: "\<forall>i<length ?P - 1. \<exists>ip. w ! i = IPv4Layer ip \<and>
            uint (Length ip) =
              (ipHeaderLen * (2 * (int (length ?P) - 1) - int i) + udpHeaderLen + ipHeaderLen +
                 int (length [120 :: byte])) mod 65536"
    and arr: "\<forall>i<length ?P - 1. \<exists>ip. w ! (2 * (length ?P - 1) - 1 - i) = IPv4Layer ip \<and>
            uint (Length ip) =
              (ipHeaderLen * (int i + 1) + udpHeaderLen + ipHeaderLen +
                 int (length [120 :: byte])) mod 65536"
    using CreateRoundTripPacketForPath_lengths [of ?P "[120]"] hyp by blast
  have "\<exists>ip. w ! 0 = IPv4Layer ip \<and> uint (Length ip) = 109"
    using dep [rule_format, of 0] by (simp add: ipHeaderLen_def udpHeaderLen_def)
  moreover have "\<exists>ip. w ! 3 = IPv4Layer ip \<and> uint (Length ip) = 49"
    using arr [rule_format, of 0] by (simp add: ipHeaderLen_def udpHeaderLen_def)
  ultimately show ?thesis
    using run hyp by simp
qed

subsection \<open>Hash-table dispatch\<close>

lemma chan_send_takes: "takes c \<Longrightarrow> chan_send c v = Sent (took v c)"
  by (auto simp: takes_def took_def chan_send_def)

lemma chan_send_full:
  "\<not> closed c \<Longrightarrow> receivers c = 0 \<Longrightarrow> cap c \<le> length (buf c) \<Longrightarrow> chan_send c v = WouldBlock"
  by (simp add: chan_send_def)

lemma deliver_served:
  "distinct pre \<Longrightarrow>
   \<forall>k\<in>set pre. \<forall>c. phm_m phm k = Some c \<longrightarrow> takes c \<Longrightarrow>
   deliver phm p (pre @ rest) =
     deliver
       (phm\<lparr>phm_m := (\<lambda>k. if k \<in> set pre then map_option (took p) (phm_m phm k)
                           else phm_m phm k)\<rparr>) p rest"
proof (induction pre arbitrary: phm)
  case Nil
  then show ?case by simp
next
  case (Cons h0 pre)
  have fresh: "h0 \<notin> set pre" and dist: "distinct pre"
    using Cons.prems(1) by simp_all
  show ?case
  proof (cases "phm_m phm h0")
    case None
    have same: "(\<lambda>k. if k \<in> set (h0 # pre) then map_option (took p) (phm_m phm k)
                       else phm_m phm k) =
                (\<lambda>k. if k \<in> set pre then map_option (took p) (phm_m phm k) else phm_m phm k)"
      using None by (auto simp: fun_eq_iff)
    have "\<forall>k\<in>set pre. \<forall>c. phm_m phm k = Some c \<longrightarrow> takes c"
      using Cons.prems(2) by simp
    from Cons.IH [OF dist this] show ?thesis
      using None by (simp only: same) simp
  next
    case (Some c)
    let ?phm1 = "phm\<lparr>phm_m := (phm_m phm)(h0 \<mapsto> took p c)\<rparr>"
    have "takes c" using Cons.prems(2) Some by simp
    then have step: "deliver phm p ((h0 # pre) @ rest) = deliver ?phm1 p (pre @ rest)"
      using Some by (simp add: chan_send_takes)
    have others: "\<forall>k\<in>set pre. \<forall>c. phm_m ?phm1 k = Some c \<longrightarrow> takes c"
      using Cons.prems(2) fresh by auto
    have same: "(\<lambda>k. if k \<in> set pre then map_option (took p) (phm_m ?phm1 k)
                       else phm_m ?phm1 k) =
                (\<lambda>k. if k \<in> set (h0 # pre) then map_option (took p) (phm_m phm k)
                       else phm_m phm k)"
      using Some fresh by (auto simp: fun_eq_iff)
    have "deliver ?phm1 p (pre @ rest) =
            deliver (?phm1\<lparr>phm_m := (\<lambda>k. if k \<in> set pre then map_option (took p) (phm_m ?phm1 k)
                       else phm_m ?phm1 k)\<rparr>) p rest"
      using Cons.IH [OF dist others] .
    then show ?thesis
      unfolding step by (simp only: same) simp
  qed
qed

lemma run_dispatched:
  assumes "\<not> phm_locked phm"
    and "distinct (computeHashes (phm_hashers phm) p)"
    and "\<forall>k\<in>set (computeHashes (phm_hashers phm) p). \<forall>c. phm_m phm k = Some c \<longrightarrow> takes c"
  shows "run phm p =
     Dispatched
       (phm\<lparr>phm_m := (\<lambda>k. if k \<in> set (computeHashes (phm_hashers phm) p)
                            then map_option (took p) (phm_m phm k) else phm_m phm k),
            phm_locked := False\<rparr>)"
proof -
  let ?hs = "computeHashes (phm_hashers phm) p"
  have sel: "phm_m (phm\<lparr>phm_locked := True\<rparr>) = phm_m phm"
    by simp
  have "\<forall>k\<in>set ?hs. \<forall>c. phm_m (phm\<lparr>phm_locked := True\<rparr>) k = Some c \<longrightarrow> takes c"
    using assms(3) by simp
  from deliver_served [OF assms(2) this, of p "[]", unfolded sel]
  show ?thesis
    using assms(1) by (simp add: run_def Let_def)
qed

lemma run_blocked:
  assumes "\<not> phm_locked phm"
    and "computeHashes (phm_hashers phm) p = pre @ h # post"
    and "distinct (pre @ h # post)"
    and "\<forall>k\<in>set pre. \<forall>c. phm_m phm k = Some c \<longrightarrow> takes c"
    and "phm_m phm h = Some q" and "\<not> closed q" and "receivers q = 0"
    and "cap q \<le> length (buf q)"
  shows "run phm p =
     BlockedAt (h # post)
       (phm\<lparr>phm_locked := True,
            phm_m := (\<lambda>k. if k \<in> set pre then map_option (took p) (phm_m phm k)
                          else phm_m phm k)\<rparr>)"
proof -
  have sel: "phm_m (phm\<lparr>phm_locked := True\<rparr>) = phm_m phm"
    by simp
  have dist: "distinct pre" and fresh: "h \<notin> set pre"
    using assms(3) by simp_all
  have "\<forall>k\<in>set pre. \<forall>c. phm_m (phm\<lparr>phm_locked := True\<rparr>) k = Some c \<longrightarrow> takes c"
    using assms(4) by simp
  from deliver_served [OF dist this, of p "h # post", unfolded sel]
  show ?thesis
    using fresh assms(1,2,5) chan_send_full [OF assms(6,7,8), of p]
    by (simp add: run_def Let_def)
qed

lemma deliver_stays_blocked:
  assumes "phm_m phm h = Some q" and "\<not> closed q" and "receivers q = 0"
    and "cap q \<le> length (buf q)"
  shows "deliver phm p (h # post) = BlockedAt (h # post) phm"
  using assms(1) chan_send_full [OF assms(2,3,4), of p] by simp

lemma deliver_after_drain:
  assumes "\<not> closed q" and "receivers q = 0" and "chan_recv q = Some (v, q')"
    and "length (buf q') < cap q"
  shows "deliver (phm\<lparr>phm_m := (phm_m phm)(h \<mapsto> q')\<rparr>) p (h # post) =
         deliver (phm\<lparr>phm_m := (phm_m phm)(h \<mapsto> q'\<lparr>buf := buf q' @ [p]\<rparr>)\<rparr>) p post"
proof -
  have q': "q' = q\<lparr>buf := tl (buf q)\<rparr>"
    using assms(3) by (auto simp: chan_recv_def split: list.splits)
  then have "chan_send q' p = Sent (q'\<lparr>buf := buf q' @ [p]\<rparr>)"
    using assms(1,2,4) by (simp add: chan_send_def)
  then show ?thesis by simp
qed

text \<open>
  C7, as the claim states it, fails: the queue that \<open>store\<close> made for a hash holds one
  undrained packet after a first dispatch, and the next dispatch of a packet with the same
  hash stops at its send, the mutex held and the queue unchanged; nothing is dropped and
  the call does not return.
\<close>

theorem run_full_queue_counterexample:
  "store_hash (AttachHasher NewPacketHashMap BoomerangPacketHasher)
       ([109, 111, 98, 121] @ replicate 16 7)
     = Some (\<lparr>phm_locked = False,
              phm_m = [[109, 111, 98, 121] @ replicate 16 7 \<mapsto> make_chan 1],
              phm_hashers = [BoomerangPacketHasher]\<rparr>, make_chan 1) \<and>
   run \<lparr>phm_locked = False,
        phm_m = [[109, 111, 98, 121] @ replicate 16 7 \<mapsto> make_chan 1],
        phm_hashers = [BoomerangPacketHasher]\<rparr>
       \<lparr>ip4 = None, udp = None, app = Some ([109, 111, 98, 121] @ replicate 16 7 @ [1])\<rparr>
     = Dispatched
         \<lparr>phm_locked = False,
          phm_m = [[109, 111, 98, 121] @ replicate 16 7 \<mapsto>
            \<lparr>buf = [\<lparr>ip4 = None, udp = None,
                       app = Some ([109, 111, 98, 121] @ replicate 16 7 @ [1])\<rparr>],
             cap = 1, closed = False, receivers = 0, handed = []\<rparr>],
          phm_hashers = [BoomerangPacketHasher]\<rparr> \<and>
   run \<lparr>phm_locked = False,
        phm_m =
          [[109, 111, 98, 121] @ replicate 16 7 \<mapsto>
            \<lparr>buf = [\<lparr>ip4 = None, udp = None,
                       app = Some ([109, 111, 98, 121] @ replicate 16 7 @ [1])\<rparr>],
             cap = 1, closed = False, receivers = 0, handed = []\<rparr>],
        phm_hashers = [BoomerangPacketHasher]\<rparr>
       \<lparr>ip4 = None, udp = None, app = Some ([109, 111, 98, 121] @ replicate 16 7 @ [2])\<rparr>
     = BlockedAt [[109, 111, 98, 121] @ replicate 16 7]
         \<lparr>phm_locked = True,
          phm_m = [[109, 111, 98, 121] @ replicate 16 7 \<mapsto>
            \<lparr>buf = [\<lparr>ip4 = None, udp = None,
                       app = Some ([109, 111, 98, 121] @ replicate 16 7 @ [1])\<rparr>],
             cap = 1, closed = False, receivers = 0, handed = []\<rparr>],
          phm_hashers = [BoomerangPacketHasher]\<rparr>"
  by (simp add: run_def store_hash_def AttachHasher_def NewPacketHashMap_def
      BoomerangPacketHasher_def make_chan_def chan_send_def Let_def)

text \<open>
  C7 (amended): hash-table dispatch sends with a blocking send. A dispatch call waits
  while the mutex is held; otherwise it takes the mutex, looks up each hash produced by the
  attached hashers and, on a hit, sends the packet to the corresponding queue (\<open>store\<close>
  makes these queues with capacity 1) with a plain channel send. When the produced hashes
  are pairwise distinct and every queue hit is open and has a blocked reader or room, the
  call completes: every queue hit has the packet (handed to its blocked reader, or stored
  in its buffer), the other queues are unchanged and the mutex is released. When the queue
  of a produced hash is open, already holds as many undrained packets as its capacity and
  has no blocked reader, and the hits before it took the packet, the call stops at that
  send with the mutex still held: the full queue is unchanged, so the packet is not dropped;
  the call stays blocked while the table stays as it is, other dispatch and \<open>store\<close> calls
  wait for the mutex, and once the reader has taken a packet from the queue the send stores
  the packet in it and the call goes on with the remaining hashes.
\<close>

theorem run_blocking_send:
  "(phm_locked phm \<longrightarrow> run phm p = WaitsForLock) \<and>
   (\<not> phm_locked phm \<and> distinct (computeHashes (phm_hashers phm) p) \<and>
    (\<forall>k\<in>set (computeHashes (phm_hashers phm) p). \<forall>c. phm_m phm k = Some c \<longrightarrow>
        \<not> closed c \<and> (0 < receivers c \<or> length (buf c) < cap c)) \<longrightarrow>
    run phm p =
      Dispatched
        (phm\<lparr>phm_m :=
               (\<lambda>k. if k \<in> set (computeHashes (phm_hashers phm) p)
                    then map_option
                           (\<lambda>c. if 0 < receivers c
                                then c\<lparr>receivers := receivers c - 1, handed := handed c @ [p]\<rparr>
                                else c\<lparr>buf := buf c @ [p]\<rparr>)
                           (phm_m phm k)
                    else phm_m phm k),
             phm_locked := False\<rparr>)) \<and>
   (\<not> phm_locked phm \<and> computeHashes (phm_hashers phm) p = pre @ h # post \<and>
    distinct (pre @ h # post) \<and>
    (\<forall>k\<in>set pre. \<forall>c. phm_m phm k = Some c \<longrightarrow>
        \<not> closed c \<and> (0 < receivers c \<or> length (buf c) < cap c)) \<and>
    phm_m phm h = Some q \<and> \<not> closed q \<and> receivers q = 0 \<and> cap q \<le> length (buf q) \<longrightarrow>
    (let blocked =
           phm\<lparr>phm_locked := True,
                phm_m :=
                  (\<lambda>k. if k \<in> set pre
                       then map_option
                              (\<lambda>c. if 0 < receivers c
                                   then c\<lparr>receivers := receivers c - 1,
                                          handed := handed c @ [p]\<rparr>
                                   else c\<lparr>buf := buf c @ [p]\<rparr>)
                              (phm_m phm k)
                       else phm_m phm k)\<rparr>
     in run phm p = BlockedAt (h # post) blocked \<and>
        phm_locked blocked \<and> phm_m blocked h = Some q \<and>
        deliver blocked p (h # post) = BlockedAt (h # post) blocked \<and>
        run blocked p' = WaitsForLock \<and> store_hash blocked k' = None \<and>
        (\<forall>v q'. chan_recv q = Some (v, q') \<and> length (buf q') < cap q \<longrightarrow>
           deliver (blocked\<lparr>phm_m := (phm_m blocked)(h \<mapsto> q')\<rparr>) p (h # post) =
           deliver (blocked\<lparr>phm_m := (phm_m blocked)(h \<mapsto> q'\<lparr>buf := buf q' @ [p]\<rparr>)\<rparr>)
             p post))) \<and>
   (\<not> phm_locked phm \<longrightarrow>
      store_hash phm k' = Some (phm\<lparr>phm_m := (phm_m phm)(k' \<mapsto> make_chan 1)\<rparr>, make_chan 1)) \<and>
   cap (make_chan 1 :: Packet channel) = 1"
proof -
  have took_eq: "took p = (\<lambda>c. if 0 < receivers c
                                then c\<lparr>receivers := receivers c - 1, handed := handed c @ [p]\<rparr>
                                else c\<lparr>buf := buf c @ [p]\<rparr>)"
    by (simp add: fun_eq_iff took_def)
  have takes_eq: "takes c \<longleftrightarrow> \<not> closed c \<and> (0 < receivers c \<or> length (buf c) < cap c)"
    for c :: "Packet channel"
    by (simp add: takes_def)
  have locked: "phm_locked phm \<longrightarrow> run phm p = WaitsForLock"
    by (simp add: run_def)
  have completes: "\<not> phm_locked phm \<and> distinct (computeHashes (phm_hashers phm) p) \<and>
    (\<forall>k\<in>set (computeHashes (phm_hashers phm) p). \<forall>c. phm_m phm k = Some c \<longrightarrow>
        \<not> closed c \<and> (0 < receivers c \<or> length (buf c) < cap c)) \<longrightarrow>
    run phm p =
      Dispatched
        (phm\<lparr>phm_m :=
               (\<lambda>k. if k \<in> set (computeHashes (phm_hashers phm) p)
                    then map_option (took p) (phm_m phm k)
                    else phm_m phm k),
             phm_locked := False\<rparr>)"
    using run_dispatched [of phm p] by (simp add: takes_eq)
  have blocks: "\<not> phm_locked phm \<and> computeHashes (phm_hashers phm) p = pre @ h # post \<and>
    distinct (pre @ h # post) \<and>
    (\<forall>k\<in>set pre. \<forall>c. phm_m phm k = Some c \<longrightarrow>
        \<not> closed c \<and> (0 < receivers c \<or> length (buf c) < cap c)) \<and>
    phm_m phm h = Some q \<and> \<not> closed q \<and> receivers q = 0 \<and> cap q \<le> length (buf q) \<longrightarrow>
    (let blocked =
           phm\<lparr>phm_locked := True,
                phm_m :=
                  (\<lambda>k. if k \<in> set pre then map_option (took p) (phm_m phm k)
                       else phm_m phm k)\<rparr>
     in run phm p = BlockedAt (h # post) blocked \<and>
        phm_locked blocked \<and> phm_m blocked h = Some q \<and>
        deliver blocked p (h # post) = BlockedAt (h # post) blocked \<and>
        run blocked p' = WaitsForLock \<and> store_hash blocked k' = None \<and>
        (\<forall>v q'. chan_recv q = Some (v, q') \<and> length (buf q') < cap q \<longrightarrow>
           deliver (blocked\<lparr>phm_m := (phm_m blocked)(h \<mapsto> q')\<rparr>) p (h # post) =
           deliver (blocked\<lparr>phm_m := (phm_m blocked)(h \<mapsto> q'\<lparr>buf := buf q' @ [p]\<rparr>)\<rparr>)
             p post))"
  proof (intro impI)
    assume a: "\<not> phm_locked phm \<and> computeHashes (phm_hashers phm) p = pre @ h # post \<and>
      distinct (pre @ h # post) \<and>
      (\<forall>k\<in>set pre. \<forall>c. phm_m phm k = Some c \<longrightarrow>
          \<not> closed c \<and> (0 < receivers c \<or> length (buf c) < cap c)) \<and>
      phm_m phm h = Some q \<and> \<not> closed q \<and> receivers q = 0 \<and> cap q \<le> length (buf q)"
    define blocked where
      "blocked = phm\<lparr>phm_locked := True,
                phm_m :=
                  (\<lambda>k. if k \<in> set pre then map_option (took p) (phm_m phm k)
                       else phm_m phm k)\<rparr>"
    have q: "\<not> closed q" "receivers q = 0" "cap q \<le> length (buf q)"
      using a by simp_all
    have pre: "\<forall>k\<in>set pre. \<forall>c. phm_m phm k = Some c \<longrightarrow> takes c"
      using a by (simp add: takes_eq)
    have r: "run phm p = BlockedAt (h # post) blocked"
      unfolding blocked_def
      using a pre q by (intro run_blocked) simp_all
    have l: "phm_locked blocked"
      by (simp add: blocked_def)
    have "h \<notin> set pre" using a by simp
    then have at: "phm_m blocked h = Some q"
      using a by (simp add: blocked_def)
    have stay: "deliver blocked p (h # post) = BlockedAt (h # post) blocked"
      using at q by (rule deliver_stays_blocked)
    have wait: "run blocked p' = WaitsForLock" "store_hash blocked k' = None"
      using l by (simp_all add: run_def store_hash_def)
    have drain: "deliver (blocked\<lparr>phm_m := (phm_m blocked)(h \<mapsto> q')\<rparr>) p (h # post) =
           deliver (blocked\<lparr>phm_m := (phm_m blocked)(h \<mapsto> q'\<lparr>buf := buf q' @ [p]\<rparr>)\<rparr>)
             p post"
      if "chan_recv q = Some (v, q') \<and> length (buf q') < cap q" for v q'
      using deliver_after_drain [OF q(1) q(2), of v q'] that by simp
    show "let blocked =
           phm\<lparr>phm_locked := True,
                phm_m :=
                  (\<lambda>k. if k \<in> set pre then map_option (took p) (phm_m phm k)
                       else phm_m phm k)\<rparr>
     in run phm p = BlockedAt (h # post) blocked \<and>
        phm_locked blocked \<and> phm_m blocked h = Some q \<and>
        deliver blocked p (h # post) = BlockedAt (h # post) blocked \<and>
        run blocked p' = WaitsForLock \<and> store_hash blocked k' = None \<and>
        (\<forall>v q'. chan_recv q = Some (v, q') \<and> length (buf q') < cap q \<longrightarrow>
           deliver (blocked\<lparr>phm_m := (phm_m blocked)(h \<mapsto> q')\<rparr>) p (h # post) =
           deliver (blocked\<lparr>phm_m := (phm_m blocked)(h \<mapsto> q'\<lparr>buf := buf q' @ [p]\<rparr>)\<rparr>)
             p post)"
      unfolding Let_def blocked_def [symmetric]
      using r l at stay wait drain by blast
  qed
  have stores: "\<not> phm_locked phm \<longrightarrow>
      store_hash phm k' = Some (phm\<lparr>phm_m := (phm_m phm)(k' \<mapsto> make_chan 1)\<rparr>, make_chan 1)"
    by (simp add: store_hash_def Let_def)
  have one: "cap (make_chan 1 :: Packet channel) = 1"
    by (simp add: make_chan_def)
  show ?thesis
    using locked completes [unfolded took_eq] blocks [unfolded took_eq] stores one
    by (intro conjI)
qed

text \<open>
  The amended C7 at work on the table of one Boomerang hasher and one stored hash: a
  packet with that hash is stored in the empty queue, or handed to the reader blocked on
  it, and the call returns with the mutex released; with the first packet still in the
  queue the next dispatch stops at its send holding the mutex, stays there, keeps another
  dispatch and a \<open>store\<close> waiting, and completes once the reader has taken the first packet.
\<close>

theorem run_blocking_send_witness:
  "computeHashes [BoomerangPacketHasher] \<lparr>ip4 = None, udp = None, app = Some ([109, 111, 98, 121] @ replicate 16 7 @ [1])\<rparr> = [([109, 111, 98, 121] @ replicate 16 7)] \<and>
   run \<lparr>phm_locked = False,
        phm_m = [([109, 111, 98, 121] @ replicate 16 7) \<mapsto>
          \<lparr>buf = [], cap = 1, closed = False, receivers = 0, handed = []\<rparr>],
        phm_hashers = [BoomerangPacketHasher]\<rparr>
       \<lparr>ip4 = None, udp = None, app = Some ([109, 111, 98, 121] @ replicate 16 7 @ [1])\<rparr>
     = Dispatched
       \<lparr>phm_locked = False,
        phm_m = [([109, 111, 98, 121] @ replicate 16 7) \<mapsto>
          \<lparr>buf = [\<lparr>ip4 = None, udp = None, app = Some ([109, 111, 98, 121] @ replicate 16 7 @ [1])\<rparr>], cap = 1, closed = False, receivers = 0, handed = []\<rparr>],
        phm_hashers = [BoomerangPacketHasher]\<rparr> \<and>
   run \<lparr>phm_locked = False,
        phm_m = [([109, 111, 98, 121] @ replicate 16 7) \<mapsto>
          \<lparr>buf = [], cap = 1, closed = False, receivers = 1, handed = []\<rparr>],
        phm_hashers = [BoomerangPacketHasher]\<rparr>
       \<lparr>ip4 = None, udp = None, app = Some ([109, 111, 98, 121] @ replicate 16 7 @ [1])\<rparr>
     = Dispatched
       \<lparr>phm_locked = False,
        phm_m = [([109, 111, 98, 121] @ replicate 16 7) \<mapsto>
          \<lparr>buf = [], cap = 1, closed = False, receivers = 0, handed = [\<lparr>ip4 = None, udp = None, app = Some ([109, 111, 98, 121] @ replicate 16 7 @ [1])\<rparr>]\<rparr>],
        phm_hashers = [BoomerangPacketHasher]\<rparr> \<and>
   run \<lparr>phm_locked = False,
        phm_m = [([109, 111, 98, 121] @ replicate 16 7) \<mapsto>
          \<lparr>buf = [\<lparr>ip4 = None, udp = None, app = Some ([109, 111, 98, 121] @ replicate 16 7 @ [1])\<rparr>], cap = 1, closed = False, receivers = 0, handed = []\<rparr>],
        phm_hashers = [BoomerangPacketHasher]\<rparr>
       \<lparr>ip4 = None, udp = None, app = Some ([109, 111, 98, 121] @ replicate 16 7 @ [2])\<rparr>
     = BlockedAt [([109, 111, 98, 121] @ replicate 16 7)]
       \<lparr>phm_locked = True,
        phm_m = [([109, 111, 98, 121] @ replicate 16 7) \<mapsto>
          \<lparr>buf = [\<lparr>ip4 = None, udp = None, app = Some ([109, 111, 98, 121] @ replicate 16 7 @ [1])\<rparr>], cap = 1, closed = False, receivers = 0, handed = []\<rparr>],
        phm_hashers = [BoomerangPacketHasher]\<rparr> \<and>
   deliver
       \<lparr>phm_locked = True,
        phm_m = [([109, 111, 98, 121] @ replicate 16 7) \<mapsto>
          \<lparr>buf = [\<lparr>ip4 = None, udp = None, app = Some ([109, 111, 98, 121] @ replicate 16 7 @ [1])\<rparr>], cap = 1, closed = False, receivers = 0, handed = []\<rparr>],
        phm_hashers = [BoomerangPacketHasher]\<rparr>
       \<lparr>ip4 = None, udp = None, app = Some ([109, 111, 98, 121] @ replicate 16 7 @ [2])\<rparr>
       [([109, 111, 98, 121] @ replicate 16 7)]
     = BlockedAt [([109, 111, 98, 121] @ replicate 16 7)]
       \<lparr>phm_locked = True,
        phm_m = [([109, 111, 98, 121] @ replicate 16 7) \<mapsto>
          \<lparr>buf = [\<lparr>ip4 = None, udp = None, app = Some ([109, 111, 98, 121] @ replicate 16 7 @ [1])\<rparr>], cap = 1, closed = False, receivers = 0, handed = []\<rparr>],
        phm_hashers = [BoomerangPacketHasher]\<rparr> \<and>
   run \<lparr>phm_locked = True,
        phm_m = [([109, 111, 98, 121] @ replicate 16 7) \<mapsto>
          \<lparr>buf = [\<lparr>ip4 = None, udp = None, app = Some ([109, 111, 98, 121] @ replicate 16 7 @ [1])\<rparr>], cap = 1, closed = False, receivers = 0, handed = []\<rparr>],
        phm_hashers = [BoomerangPacketHasher]\<rparr>
       \<lparr>ip4 = None, udp = None, app = Some ([109, 111, 98, 121] @ replicate 16 7 @ [3])\<rparr>
     = WaitsForLock \<and>
   store_hash
       \<lparr>phm_locked = True,
        phm_m = [([109, 111, 98, 121] @ replicate 16 7) \<mapsto>
          \<lparr>buf = [\<lparr>ip4 = None, udp = None, app = Some ([109, 111, 98, 121] @ replicate 16 7 @ [1])\<rparr>], cap = 1, closed = False, receivers = 0, handed = []\<rparr>],
        phm_hashers = [BoomerangPacketHasher]\<rparr>
       ([109, 111, 98, 121] @ replicate 16 8)
     = None \<and>
   chan_recv \<lparr>buf = [\<lparr>ip4 = None, udp = None, app = Some ([109, 111, 98, 121] @ replicate 16 7 @ [1])\<rparr>], cap = 1, closed = False, receivers = 0, handed = []\<rparr>
     = Some (\<lparr>ip4 = None, udp = None, app = Some ([109, 111, 98, 121] @ replicate 16 7 @ [1])\<rparr>, \<lparr>buf = [], cap = 1, closed = False, receivers = 0, handed = []\<rparr>) \<and>
   deliver
       \<lparr>phm_locked = True,
        phm_m = [([109, 111, 98, 121] @ replicate 16 7) \<mapsto>
          \<lparr>buf = [], cap = 1, closed = False, receivers = 0, handed = []\<rparr>],
        phm_hashers = [BoomerangPacketHasher]\<rparr>
       \<lparr>ip4 = None, udp = None, app = Some ([109, 111, 98, 121] @ replicate 16 7 @ [2])\<rparr>
       [([109, 111, 98, 121] @ replicate 16 7)]
     = Dispatched
       \<lparr>phm_locked = False,
        phm_m = [([109, 111, 98, 121] @ replicate 16 7) \<mapsto>
          \<lparr>buf = [\<lparr>ip4 = None, udp = None, app = Some ([109, 111, 98, 121] @ replicate 16 7 @ [2])\<rparr>], cap = 1, closed = False, receivers = 0, handed = []\<rparr>],
        phm_hashers = [BoomerangPacketHasher]\<rparr>"
proof -
  have hs: "computeHashes [BoomerangPacketHasher] \<lparr>ip4 = None, udp = None, app = Some ([109, 111, 98, 121] @ replicate 16 7 @ [n])\<rparr> = [([109, 111, 98, 121] @ replicate 16 7)]" for n
    by (simp add: BoomerangPacketHasher_def)
  have stored: "run \<lparr>phm_locked = False,
        phm_m = [([109, 111, 98, 121] @ replicate 16 7) \<mapsto>
          \<lparr>buf = [], cap = 1, closed = False, receivers = 0, handed = []\<rparr>],
        phm_hashers = [BoomerangPacketHasher]\<rparr>
       \<lparr>ip4 = None, udp = None, app = Some ([109, 111, 98, 121] @ replicate 16 7 @ [1])\<rparr>
     = Dispatched
       \<lparr>phm_locked = False,
        phm_m = [([109, 111, 98, 121] @ replicate 16 7) \<mapsto>
          \<lparr>buf = [\<lparr>ip4 = None, udp = None, app = Some ([109, 111, 98, 121] @ replicate 16 7 @ [1])\<rparr>], cap = 1, closed = False, receivers = 0, handed = []\<rparr>],
        phm_hashers = [BoomerangPacketHasher]\<rparr>"
    using run_blocking_send [of "\<lparr>phm_locked = False,
        phm_m = [([109, 111, 98, 121] @ replicate 16 7) \<mapsto>
          \<lparr>buf = [], cap = 1, closed = False, receivers = 0, handed = []\<rparr>],
        phm_hashers = [BoomerangPacketHasher]\<rparr>" "\<lparr>ip4 = None, udp = None, app = Some ([109, 111, 98, 121] @ replicate 16 7 @ [1])\<rparr>" "[]" "([109, 111, 98, 121] @ replicate 16 7)" "[]" "\<lparr>buf = [], cap = 1, closed = False, receivers = 0, handed = []\<rparr>" "\<lparr>ip4 = None, udp = None, app = Some ([109, 111, 98, 121] @ replicate 16 7 @ [3])\<rparr>" "([109, 111, 98, 121] @ replicate 16 8)"]
    by (simp add: BoomerangPacketHasher_def fun_eq_iff run_def chan_send_def)
  have handed: "run \<lparr>phm_locked = False,
        phm_m = [([109, 111, 98, 121] @ replicate 16 7) \<mapsto>
          \<lparr>buf = [], cap = 1, closed = False, receivers = 1, handed = []\<rparr>],
        phm_hashers = [BoomerangPacketHasher]\<rparr>
       \<lparr>ip4 = None, udp = None, app = Some ([109, 111, 98, 121] @ replicate 16 7 @ [1])\<rparr>
     = Dispatched
       \<lparr>phm_locked = False,
        phm_m = [([109, 111, 98, 121] @ replicate 16 7) \<mapsto>
          \<lparr>buf = [], cap = 1, closed = False, receivers = 0, handed = [\<lparr>ip4 = None, udp = None, app = Some ([109, 111, 98, 121] @ replicate 16 7 @ [1])\<rparr>]\<rparr>],
        phm_hashers = [BoomerangPacketHasher]\<rparr>"
    using run_blocking_send [of "\<lparr>phm_locked = False,
        phm_m = [([109, 111, 98, 121] @ replicate 16 7) \<mapsto>
          \<lparr>buf = [], cap = 1, closed = False, receivers = 1, handed = []\<rparr>],
        phm_hashers = [BoomerangPacketHasher]\<rparr>" "\<lparr>ip4 = None, udp = None, app = Some ([109, 111, 98, 121] @ replicate 16 7 @ [1])\<rparr>" "[]" "([109, 111, 98, 121] @ replicate 16 7)" "[]" "\<lparr>buf = [], cap = 1, closed = False, receivers = 1, handed = []\<rparr>" "\<lparr>ip4 = None, udp = None, app = Some ([109, 111, 98, 121] @ replicate 16 7 @ [3])\<rparr>" "([109, 111, 98, 121] @ replicate 16 8)"]
    by (simp add: BoomerangPacketHasher_def fun_eq_iff run_def chan_send_def)
  have blocked: "run \<lparr>phm_locked = False,
        phm_m = [([109, 111, 98, 121] @ replicate 16 7) \<mapsto>
          \<lparr>buf = [\<lparr>ip4 = None, udp = None, app = Some ([109, 111, 98, 121] @ replicate 16 7 @ [1])\<rparr>], cap = 1, closed = False, receivers = 0, handed = []\<rparr>],
        phm_hashers = [BoomerangPacketHasher]\<rparr>
       \<lparr>ip4 = None, udp = None, app = Some ([109, 111, 98, 121] @ replicate 16 7 @ [2])\<rparr>
     = BlockedAt [([109, 111, 98, 121] @ replicate 16 7)]
       \<lparr>phm_locked = True,
        phm_m = [([109, 111, 98, 121] @ replicate 16 7) \<mapsto>
          \<lparr>buf = [\<lparr>ip4 = None, udp = None, app = Some ([109, 111, 98, 121] @ replicate 16 7 @ [1])\<rparr>], cap = 1, closed = False, receivers = 0, handed = []\<rparr>],
        phm_hashers = [BoomerangPacketHasher]\<rparr> \<and>
   deliver
       \<lparr>phm_locked = True,
        phm_m = [([109, 111, 98, 121] @ replicate 16 7) \<mapsto>
          \<lparr>buf = [\<lparr>ip4 = None, udp = None, app = Some ([109, 111, 98, 121] @ replicate 16 7 @ [1])\<rparr>], cap = 1, closed = False, receivers = 0, handed = []\<rparr>],
        phm_hashers = [BoomerangPacketHasher]\<rparr>
       \<lparr>ip4 = None, udp = None, app = Some ([109, 111, 98, 121] @ replicate 16 7 @ [2])\<rparr>
       [([109, 111, 98, 121] @ replicate 16 7)]
     = BlockedAt [([109, 111, 98, 121] @ replicate 16 7)]
       \<lparr>phm_locked = True,
        phm_m = [([109, 111, 98, 121] @ replicate 16 7) \<mapsto>
          \<lparr>buf = [\<lparr>ip4 = None, udp = None, app = Some ([109, 111, 98, 121] @ replicate 16 7 @ [1])\<rparr>], cap = 1, closed = False, receivers = 0, handed = []\<rparr>],
        phm_hashers = [BoomerangPacketHasher]\<rparr> \<and>
   run \<lparr>phm_locked = True,
        phm_m = [([109, 111, 98, 121] @ replicate 16 7) \<mapsto>
          \<lparr>buf = [\<lparr>ip4 = None, udp = None, app = Some ([109, 111, 98, 121] @ replicate 16 7 @ [1])\<rparr>], cap = 1, closed = False, receivers = 0, handed = []\<rparr>],
        phm_hashers = [BoomerangPacketHasher]\<rparr>
       \<lparr>ip4 = None, udp = None, app = Some ([109, 111, 98, 121] @ replicate 16 7 @ [3])\<rparr>
     = WaitsForLock \<and>
   store_hash
       \<lparr>phm_locked = True,
        phm_m = [([109, 111, 98, 121] @ replicate 16 7) \<mapsto>
          \<lparr>buf = [\<lparr>ip4 = None, udp = None, app = Some ([109, 111, 98, 121] @ replicate 16 7 @ [1])\<rparr>], cap = 1, closed = False, receivers = 0, handed = []\<rparr>],
        phm_hashers = [BoomerangPacketHasher]\<rparr>
       ([109, 111, 98, 121] @ replicate 16 8)
     = None \<and>
   deliver
       \<lparr>phm_locked = True,
        phm_m = [([109, 111, 98, 121] @ replicate 16 7) \<mapsto>
          \<lparr>buf = [], cap = 1, closed = False, receivers = 0, handed = []\<rparr>],
        phm_hashers = [BoomerangPacketHasher]\<rparr>
       \<lparr>ip4 = None, udp = None, app = Some ([109, 111, 98, 121] @ replicate 16 7 @ [2])\<rparr>
       [([109, 111, 98, 121] @ replicate 16 7)]
     = Dispatched
       \<lparr>phm_locked = False,
        phm_m = [([109, 111, 98, 121] @ replicate 16 7) \<mapsto>
          \<lparr>buf = [\<lparr>ip4 = None, udp = None, app = Some ([109, 111, 98, 121] @ replicate 16 7 @ [2])\<rparr>], cap = 1, closed = False, receivers = 0, handed = []\<rparr>],
        phm_hashers = [BoomerangPacketHasher]\<rparr>"
    using run_blocking_send [of "\<lparr>phm_locked = False,
        phm_m = [([109, 111, 98, 121] @ replicate 16 7) \<mapsto>
          \<lparr>buf = [\<lparr>ip4 = None, udp = None, app = Some ([109, 111, 98, 121] @ replicate 16 7 @ [1])\<rparr>], cap = 1, closed = False, receivers = 0, handed = []\<rparr>],
        phm_hashers = [BoomerangPacketHasher]\<rparr>" "\<lparr>ip4 = None, udp = None, app = Some ([109, 111, 98, 121] @ replicate 16 7 @ [2])\<rparr>" "[]" "([109, 111, 98, 121] @ replicate 16 7)" "[]" "\<lparr>buf = [\<lparr>ip4 = None, udp = None, app = Some ([109, 111, 98, 121] @ replicate 16 7 @ [1])\<rparr>], cap = 1, closed = False, receivers = 0, handed = []\<rparr>" "\<lparr>ip4 = None, udp = None, app = Some ([109, 111, 98, 121] @ replicate 16 7 @ [3])\<rparr>" "([109, 111, 98, 121] @ replicate 16 8)"]
    by (simp add: BoomerangPacketHasher_def fun_eq_iff chan_recv_def Let_def run_def
        chan_send_def store_hash_def)
  have recv: "chan_recv \<lparr>buf = [\<lparr>ip4 = None, udp = None, app = Some ([109, 111, 98, 121] @ replicate 16 7 @ [1])\<rparr>], cap = 1, closed = False, receivers = 0, handed = []\<rparr>
     = Some (\<lparr>ip4 = None, udp = None, app = Some ([109, 111, 98, 121] @ replicate 16 7 @ [1])\<rparr>, \<lparr>buf = [], cap = 1, closed = False, receivers = 0, handed = []\<rparr>)"
    by (simp add: chan_recv_def)
  show ?thesis
    using hs [of 1] stored handed blocked recv by (intro conjI) blast+
qed

subsection \<open>Boomerang\<close>

lemma CreateRoundTripPacketForPath_built_length:
  "CreateRoundTripPacketForPath path payload = Returns (Inr w) \<Longrightarrow> 2 \<le> length path"
  by (cases "length path < 2") (simp_all add: CreateRoundTripPacketForPath_def)

lemma Boomerang_matched:
  assumes marshal: "json_Marshal env (NewBoomerangPayload (path ! (length path - 1)) (uuid_New env))
                      = Inr payload"
    and built: "CreateRoundTripPacketForPath path payload = Returns (Inr w)"
    and sent: "tc_SendTo env (buf_Bytes env w) (path ! 1) = None"
    and reply: "select_case env = Matched packet rxTime"
    and layer: "udp packet = Some udpPayload"
  shows "Boomerang tc env path timeout =
     Returns
       (zeroResult
          \<lparr>Payload := (json_Unmarshal env udpPayload)
                         \<lparr>RxTimestamp := rxTime, TxTimestamp := time_Now_tx env\<rparr>\<rparr>,
        tc\<lparr>listenerMap :=
             fst (RegisterListener
                    (snd (NewListener (listenerMap tc) (criteria path (uuid_New env))))
                    (fst (NewListener (listenerMap tc) (criteria path (uuid_New env)))))\<rparr>)"
proof -
  have len: "2 \<le> length path"
    using built by (rule CreateRoundTripPacketForPath_built_length)
  then have send: "SendToPath (tc_SendTo env) (buf_Bytes env w) path = Returns None"
    using sent by (auto simp: SendToPath_def)
  have ne: "path \<noteq> []" using len by auto
  show ?thesis
    using ne marshal built send reply layer
    by (simp add: Boomerang_def Let_def split_beta)
qed

lemma Boomerang_timer:
  assumes marshal: "json_Marshal env (NewBoomerangPayload (path ! (length path - 1)) (uuid_New env))
                      = Inr payload"
    and built: "CreateRoundTripPacketForPath path payload = Returns (Inr w)"
    and sent: "tc_SendTo env (buf_Bytes env w) (path ! 1) = None"
    and timer: "select_case env = TimerFired now"
  shows "Boomerang tc env path timeout =
     Returns
       (zeroResult
          \<lparr>Payload := zeroPayload\<lparr>DestIP := path ! (length path - 1),
                                    TxTimestamp := time_Now_tx env, RxTimestamp := now\<rparr>,
           Err := Some (''timed out waiting for packet from '' @
                          IP_String env (path ! (length path - 1))),
           ErrorType := timedOut\<rparr>,
        tc\<lparr>listenerMap :=
             fst (UnregisterListener
                    (fst (RegisterListener
                       (snd (NewListener (listenerMap tc) (criteria path (uuid_New env))))
                       (fst (NewListener (listenerMap tc) (criteria path (uuid_New env))))))
                    (fst (NewListener (listenerMap tc) (criteria path (uuid_New env)))))\<rparr>)"
proof -
  have len: "2 \<le> length path"
    using built by (rule CreateRoundTripPacketForPath_built_length)
  then have send: "SendToPath (tc_SendTo env) (buf_Bytes env w) path = Returns None"
    using sent by (auto simp: SendToPath_def)
  have ne: "path \<noteq> []" using len by auto
  show ?thesis
    using ne marshal built send timer
    by (simp add: Boomerang_def Let_def split_beta)
qed

lemma two_hop_packet:
  "CreateRoundTripPacketForPath two_hops [10, 0, 0, 2] =
     Returns (Inr
       [IPv4Layer (buildIPIPLayer [10, 0, 0, 1] [10, 0, 0, 2] 72),
        IPv4Layer (buildIPIPLayer [10, 0, 0, 2] [10, 0, 0, 1] 52),
        IPv4Layer (buildUDPLayer [10, 0, 0, 2] [10, 0, 0, 1] 32),
        PayloadLayer [10, 0, 0, 2]])"
proof -
  have hops: "\<forall>h\<in>set [[10, 0, 0, 1], [10, 0, 0, 2 :: byte]]. To4 h \<noteq> []"
    by (simp add: To4_def IPv4len_def)
  show ?thesis
    unfolding two_hops_def
    using CreateRoundTripPacketForPath_closed_form [OF _ hops, of "[10, 0, 0, 2]"]
    by (simp add: To4_def IPv4len_def ipHeaderLen_def udpHeaderLen_def)
qed

lemma scenario_marshal:
  "json_Marshal (scenario_env a)
     (NewBoomerangPayload (two_hops ! (length two_hops - 1)) (uuid_New (scenario_env a)))
   = Inr [10, 0, 0, 2]"
  by (simp add: scenario_env_def two_hops_def NewBoomerangPayload_def zeroPayload_def)

lemma scenario_send:
  "tc_SendTo (scenario_env a) (buf_Bytes (scenario_env a) w) (two_hops ! 1) = None"
  by (simp add: scenario_env_def)

lemma scenario_select: "select_case (scenario_env a) = a"
  by (simp add: scenario_env_def)

lemma scenario_udp: "udp reply_packet = Some [10, 0, 0, 2]"
  by (simp add: reply_packet_def)

lemmas scenario_reply =
  Boomerang_matched [OF scenario_marshal two_hop_packet scenario_send scenario_select scenario_udp]

lemmas scenario_timer =
  Boomerang_timer [OF scenario_marshal two_hop_packet scenario_send scenario_select]

text \<open>
  C4, as the claim states it, fails: the enumeration has no value \<open>ok\<close>, and the result of a
  probe that received its reply carries the error type \<open>timedOut\<close> (its \<open>ErrorType\<close> field
  is never set, and \<open>timedOut\<close> is the enumeration's zero). In the scenario the probe
  receives at instant 150 the reply to the packet it sent at instant 100.
\<close>

theorem Boomerang_reply_errorType_counterexample:
  "map_option (\<lambda>r. (Err (fst r), ErrorType (fst r) = timedOut, Payload (fst r)))
     (returned (Boomerang fresh_tc (scenario_env (Matched reply_packet 150)) two_hops 3))
   = Some (None, True,
           \<lparr>DestIP = [10, 0, 0, 2], ID = ''u1'', TxTimestamp = 100, RxTimestamp = 150\<rparr>)"
  by (simp add: scenario_reply returned_def zeroResult_def timedOut_def)
     (simp add: scenario_env_def zeroPayload_def)

text \<open>
  C4 (amended): whenever a \<open>Boomerang\<close> probe receives a matching reply before its timer
  fires, the result returned has a nil \<open>Err\<close>, carries the decoded payload with both time
  stamps, and has its \<open>ErrorType\<close> at Go's zero value, which is the value of \<open>timedOut\<close>;
  \<open>timedOut\<close>, \<open>fatal\<close> and \<open>sendError\<close> are three pairwise distinct values of the
  enumeration (a success is told by \<open>Err\<close> being nil, not by an error type).
\<close>

theorem Boomerang_reply_result:
  assumes "json_Marshal env (NewBoomerangPayload (path ! (length path - 1)) (uuid_New env))
             = Inr payload"
    and "CreateRoundTripPacketForPath path payload = Returns (Inr w)"
    and "tc_SendTo env (buf_Bytes env w) (path ! 1) = None"
    and "select_case env = Matched packet rxTime"
    and "udp packet = Some udpPayload"
  shows "\<exists>res tc'. Boomerang tc env path timeout = Returns (res, tc') \<and>
           Err res = None \<and> ErrorType res = 0 \<and> ErrorType res = timedOut \<and>
           Payload res = (json_Unmarshal env udpPayload)
                           \<lparr>RxTimestamp := rxTime, TxTimestamp := time_Now_tx env\<rparr> \<and>
           timedOut \<noteq> fatal \<and> timedOut \<noteq> sendError \<and> fatal \<noteq> sendError"
  using Boomerang_matched [OF assms, of tc timeout]
  by (simp add: zeroResult_def timedOut_def fatal_def sendError_def)

theorem Boomerang_reply_result_witness:
  "json_Marshal (scenario_env (Matched reply_packet 150))
      (NewBoomerangPayload (two_hops ! (length two_hops - 1))
         (uuid_New (scenario_env (Matched reply_packet 150))))
     = Inr [10, 0, 0, 2] \<and>
   (\<exists>w. CreateRoundTripPacketForPath two_hops [10, 0, 0, 2] = Returns (Inr w) \<and>
        tc_SendTo (scenario_env (Matched reply_packet 150))
          (buf_Bytes (scenario_env (Matched reply_packet 150)) w) (two_hops ! 1) = None) \<and>
   select_case (scenario_env (Matched reply_packet 150)) = Matched reply_packet 150 \<and>
   udp reply_packet = Some [10, 0, 0, 2] \<and>
   (\<exists>res tc'.
      Boomerang fresh_tc (scenario_env (Matched reply_packet 150)) two_hops 3
        = Returns (res, tc') \<and>
      Err res = None \<and> ErrorType res = timedOut)"
proof -
  have "\<exists>res tc'.
      Boomerang fresh_tc (scenario_env (Matched reply_packet 150)) two_hops 3
        = Returns (res, tc') \<and>
      Err res = None \<and> ErrorType res = timedOut"
    using Boomerang_reply_result
      [OF scenario_marshal two_hop_packet scenario_send scenario_select scenario_udp]
    by blast
  then show ?thesis
    using scenario_marshal two_hop_packet scenario_send scenario_select scenario_udp
    by simp
qed

text \<open>
  C8: the probe of the scenario, on an empty listener table. When the reply arrives before
  the timer, \<open>Boomerang\<close> returns with its listener (handle 0) still in the table and the
  listener's queue still open; only the timer's branch calls \<open>UnregisterListener\<close>, after
  which the listener is gone and its queue closed.
\<close>

theorem Boomerang_success_leaves_listener:
  "map_option (\<lambda>r. (is_registered (listenerMap (snd r)) 0, queue_closed (listenerMap (snd r)) 0))
     (returned (Boomerang fresh_tc (scenario_env (Matched reply_packet 150)) two_hops 3))
   = Some (True, False) \<and>
   map_option (\<lambda>r. (is_registered (listenerMap (snd r)) 0, queue_closed (listenerMap (snd r)) 0))
     (returned (Boomerang fresh_tc (scenario_env (TimerFired 3100)) two_hops 3))
   = Some (False, True)"
  by (simp add: scenario_reply scenario_timer returned_def is_registered_def queue_closed_def
      NewListener_def RegisterListener_def UnregisterListener_def NewListenerMap_def
      fresh_tc_def make_chan_def chan_close_def)

subsection \<open>The filter guard of the sweeps\<close>

text \<open>
  C5: on a transport channel whose filter is \<open>"icmp"\<close>, which does not contain
  \<open>"ip proto 4"\<close>, both sweeps block for ever: the fatal result is sent on an unbuffered
  channel that has no receiver, before the channel is returned. Neither call returns.
\<close>

theorem sweeps_block_on_filter_mismatch:
  "ProbeEachHopOfPath \<lparr>tc_filter = ''icmp'', listenerMap = lm\<rparr> envs path numPackets timeout
     = BlocksForever \<and>
   ProbeEachHopOfPathSync \<lparr>tc_filter = ''icmp'', listenerMap = lm\<rparr> sched envs' path numPackets
       timeout
     = BlocksForever"
  by (simp add: ProbeEachHopOfPath_def ProbeEachHopOfPathSync_def filter_guard_def Let_def
      make_chan_def chan_send_def)

subsection \<open>The synchronous sweep\<close>








subsection \<open>Path discovery\<close>

lemma ttl_next:
  assumes "(ttl :: 8 word) \<le> 32"
  shows "unat (ttl + 1) = unat ttl + 1" and "ttl + 1 \<le> 33" and "1 \<le> ttl + 1"
proof -
  have le: "unat ttl \<le> 32"
    using assms by (simp add: word_le_nat_alt)
  then show u: "unat (ttl + 1) = unat ttl + 1"
    by (simp add: unat_word_ariths)
  show "ttl + 1 \<le> 33" "1 \<le> ttl + 1"
    using u le by (simp_all add: word_le_nat_alt)
qed

lemma ttl_loop_all_timeouts:
  assumes builds: "\<forall>t. buildUDPTraceroutePacket env s d t Hello = None"
    and waits: "\<forall>t. 1 \<le> t \<and> t \<le> 32 \<longrightarrow> ttl_select env t = TimerExpired"
  shows "n = 33 - unat ttl \<Longrightarrow> 1 \<le> ttl \<Longrightarrow> ttl \<le> 33 \<Longrightarrow>
         ttl_loop env s d ttl out = \<lparr>emitted = out @ replicate n None, ending = Closed\<rparr>"
proof (induction n arbitrary: ttl out)
  case 0
  then have "unat ttl = 33"
    by (simp add: word_le_nat_alt)
  then have "\<not> ttl \<le> 32"
    by (simp add: word_le_nat_alt)
  then show ?case
    by (subst ttl_loop.simps) simp
next
  case (Suc n)
  then have "unat ttl \<le> 32" by simp
  then have le: "ttl \<le> 32"
    by (simp add: word_le_nat_alt)
  have next_n: "n = 33 - unat (ttl + 1)"
    using Suc.prems(1) ttl_next(1) [OF le] by simp
  have "ttl_loop env s d (ttl + 1) (out @ [None]) =
          \<lparr>emitted = (out @ [None]) @ replicate n None, ending = Closed\<rparr>"
    using Suc.IH [OF next_n ttl_next(3) [OF le] ttl_next(2) [OF le]] .
  moreover have "ttl_loop env s d ttl out = ttl_loop env s d (ttl + 1) (out @ [None])"
    using le builds waits Suc.prems(2) by (subst ttl_loop.simps) simp
  ultimately show ?case
    by (simp add: replicate_append_same)
qed

lemma ttl_loop_bound:
  "length (emitted (ttl_loop env s d ttl out)) \<le> length out + (33 - unat ttl)"
proof (induction env s d ttl out rule: ttl_loop.induct)
  case (1 env sourceIP dst ttl out)
  show ?case
  proof (cases "ttl \<le> 32")
    case False
    then show ?thesis by (subst ttl_loop.simps) simp
  next
    case True
    note u = ttl_next(1) [OF True]
    have small: "unat ttl \<le> 32"
      using True by (simp add: word_le_nat_alt)
    show ?thesis
    proof (cases "buildUDPTraceroutePacket env sourceIP dst ttl Hello")
      case (Some err)
      then show ?thesis using True by (subst ttl_loop.simps) simp
    next
      case None
      show ?thesis
      proof (cases "ttl_select env ttl")
        case (FoundHop ip)
        then show ?thesis
          using "1.IH"(1) [OF True None FoundHop] True None u small
          by (subst ttl_loop.simps) simp
      next
        case TimerExpired
        then show ?thesis
          using "1.IH"(2) [OF True None TimerExpired] True None u small
          by (subst ttl_loop.simps) simp
      next
        case DoneSignal
        then show ?thesis using True None by (subst ttl_loop.simps) simp
      qed
    qed
  qed
qed

text \<open>
  What the function attempts, it does once its TTL loop runs: when the filter is \<open>"icmp"\<close>,
  the source address is found, the packets build, the capturing goroutine has sent its
  ready signal and every per-TTL wait times out, the hop channel carries exactly 32 nil
  entries, one for each TTL from 1 through 32, and is then closed. In every run the hop
  channel carries at most 32 entries.
\<close>

lemma GetPathChannelTo_all_timeouts_when_ready:
  "(tc_filter tc = ''icmp'' \<and>
    FindSourceIPForDest env (destIP params) = Inr src \<and>
    (\<forall>s t. buildUDPTraceroutePacket env s (destIP params) t Hello = None) \<and>
    listenerReady env \<and>
    (\<forall>t. 1 \<le> t \<and> t \<le> 32 \<longrightarrow> ttl_select env t = TimerExpired) \<longrightarrow>
    GetPathChannelTo tc env params = Inr \<lparr>emitted = replicate 32 None, ending = Closed\<rparr>) \<and>
   (\<forall>hops. GetPathChannelTo tc env params = Inr hops \<longrightarrow> length (emitted hops) \<le> 32)"
proof (intro conjI impI allI)
  assume a: "tc_filter tc = ''icmp'' \<and>
    FindSourceIPForDest env (destIP params) = Inr src \<and>
    (\<forall>s t. buildUDPTraceroutePacket env s (destIP params) t Hello = None) \<and>
    listenerReady env \<and>
    (\<forall>t. 1 \<le> t \<and> t \<le> 32 \<longrightarrow> ttl_select env t = TimerExpired)"
  have loop: "ttl_loop env s (destIP params) 1 [] =
      \<lparr>emitted = [] @ replicate 32 None, ending = Closed\<rparr>" for s
    using a by (intro ttl_loop_all_timeouts) simp_all
  show "GetPathChannelTo tc env params = Inr \<lparr>emitted = replicate 32 None, ending = Closed\<rparr>"
    using a loop by (simp add: GetPathChannelTo_def Let_def split: option.splits)
next
  fix hops
  assume r: "GetPathChannelTo tc env params = Inr hops"
  have "length (emitted (ttl_loop env s (destIP params) 1 [])) \<le> 32" for s
    using ttl_loop_bound [of env s "destIP params" 1 "[]"] by simp
  then show "length (emitted hops) \<le> 32"
    using r
    by (auto simp: GetPathChannelTo_def Let_def split: if_splits sum.splits option.splits)
qed

text \<open>
  C10 fails in the scenario of a capture that sees no packet at all: the filter is
  \<open>"icmp"\<close>, the source address is found, every packet builds, and no response ever
  arrives. The sending goroutine waits for the ready signal of the capturing goroutine
  before its TTL loop, and that signal is only sent on the first captured packet: the hop
  channel carries nothing and is never closed, where the claim has 32 nil entries and a
  close. The same run in which the capture sees one packet that is no classified response
  carries the 32 nil entries and is closed.
\<close>

theorem GetPathChannelTo_silent_capture_never_closes:
  "GetPathChannelTo icmp_tc (silent_env False) to_dest =
     Inr \<lparr>emitted = [], ending = NeverClosed\<rparr> \<and>
   GetPathChannelTo icmp_tc (silent_env True) to_dest =
     Inr \<lparr>emitted = replicate 32 None, ending = Closed\<rparr>"
proof -
  have silent: "GetPathChannelTo icmp_tc (silent_env False) to_dest =
     Inr \<lparr>emitted = [], ending = NeverClosed\<rparr>"
    by (simp add: GetPathChannelTo_def icmp_tc_def silent_env_def to_dest_def)
  have ready: "GetPathChannelTo icmp_tc (silent_env True) to_dest =
     Inr \<lparr>emitted = replicate 32 None, ending = Closed\<rparr>"
    using GetPathChannelTo_all_timeouts_when_ready
      [of icmp_tc "silent_env True" to_dest "[10, 0, 0, 1]"]
    by (simp add: icmp_tc_def silent_env_def)
  show ?thesis
    using silent ready by (intro conjI)
qed

end
